theory Spec2Isabelle
  imports Complex_Main
begin

section \<open>The hyper-rectangle bound of mlpack (core/tree/hrectbound\_impl.hpp)\<close>

text \<open>
  The C++ class \<open>HRectBound<t_pow>\<close> holds a dimensionality \<open>dim\<close> and an array
  \<open>bounds\<close> of \<open>dim\<close> intervals (\<open>math::Range\<close>, fields \<open>lo\<close> and \<open>hi\<close>).
  Doubles are modelled as real numbers: every operation is followed in exact real
  arithmetic, and a computation whose double result would be an infinity or a NaN
  (a division by zero, a pole or a domain error of \<open>pow\<close>) ends in the error
  \<open>NonFinite\<close>. \<open>Log::Assert\<close> is modelled as it behaves in a debug build: a false
  condition ends the call with \<open>AssertionFailed\<close>. A read of \<open>bounds[i]\<close> or of
  \<open>point[i]\<close> through an axis index \<open>i \<ge> dim\<close> that a caller supplied is undefined
  behaviour in C++ and ends the call with \<open>OutOfBounds\<close>.
\<close>

subsection \<open>Data\<close>

datatype error = AssertionFailed | OutOfBounds | NonFinite

text \<open>
  Modelled from the spec: the class \<open>math::Range\<close> is declared in core/math/range.hpp,
  which is not among the sources. The spec: a closed real interval \<open>[lo, hi]\<close>, a plain
  value type; the code of the bound reads and writes its public fields \<open>lo\<close> and \<open>hi\<close>
  and builds a value with \<open>math::Range(lo, hi)\<close>.
\<close>

record Range =
  lo :: real
  hi :: real

record HRectBound =
  dim :: nat
  bounds :: "Range list"

type_synonym vec = "real list"

text \<open>The class invariant: the array \<open>bounds\<close> was allocated with \<open>new math::Range[dim]\<close>.\<close>

definition valid :: "HRectBound \<Rightarrow> bool" where
  "valid B \<longleftrightarrow> length (bounds B) = dim B"

text \<open>The empty constructor \<open>HRectBound()\<close>: \<open>dim(0), bounds(NULL)\<close>.\<close>

definition HRectBound_empty :: HRectBound where
  "HRectBound_empty = \<lparr>dim = 0, bounds = []\<rparr>"

subsection \<open>Sequencing of fallible steps, and the counting loop\<close>

definition ebind :: "error + 'a \<Rightarrow> ('a \<Rightarrow> error + 'b) \<Rightarrow> error + 'b" where
  "ebind m f = (case m of Inl e \<Rightarrow> Inl e | Inr v \<Rightarrow> f v)"

text \<open>\<open>for (size_t i = i0; i < n; i++) s = body(i, s);\<close>\<close>

function for_loop :: "nat \<Rightarrow> nat \<Rightarrow> (nat \<Rightarrow> 'a \<Rightarrow> error + 'a) \<Rightarrow> 'a \<Rightarrow> error + 'a" where
  "for_loop i n body s =
     (if i < n then ebind (body i s) (for_loop (Suc i) n body) else Inr s)"
  by pat_completeness auto
termination
  by (relation "measure (\<lambda>(i, n, body, s). n - i)") auto

declare for_loop.simps [simp del]

subsection \<open>Library arithmetic on doubles\<close>

text \<open>
  \<open>pow(x, y)\<close> of \<open><math.h>\<close> on finite arguments: \<open>1\<close> when \<open>y\<close> is zero, the real
  power for a positive base, \<open>0\<close> for a zero base and a positive exponent (a pole for a
  negative one), the integer power for a negative base and an integral exponent, and a
  domain error (NaN) for a negative base and any other exponent.
\<close>

definition pow :: "real \<Rightarrow> real \<Rightarrow> error + real" where
  "pow x y =
     (if y = 0 then Inr 1
      else if 0 < x then Inr (x powr y)
      else if x = 0 then (if 0 < y then Inr 0 else Inl NonFinite)
      else if of_int \<lfloor>y\<rfloor> = y then Inr (x powi \<lfloor>y\<rfloor>)
      else Inl NonFinite)"

text \<open>Division of doubles: a zero divisor gives an infinity or a NaN.\<close>

definition fdiv :: "real \<Rightarrow> real \<Rightarrow> error + real" where
  "fdiv a b = (if b = 0 then Inl NonFinite else Inr (a / b))"

text \<open>\<open>sum += pow(v, (double) t_pow);\<close>\<close>

definition add_pow :: "int \<Rightarrow> real \<Rightarrow> real \<Rightarrow> error + real" where
  "add_pow t_pow v s = ebind (pow v (of_int t_pow)) (\<lambda>c. Inr (s + c))"

text \<open>\<open>pow(sum, 2.0 / (double) t_pow)\<close>\<close>

definition root_pow :: "int \<Rightarrow> real \<Rightarrow> error + real" where
  "root_pow t_pow s = ebind (fdiv 2 (of_int t_pow)) (\<lambda>e. pow s e)"

subsection \<open>\<open>MinDistance\<close>\<close>

text \<open>\<open>double HRectBound<t_pow>::MinDistance(const arma::vec& point) const\<close>\<close>

definition MinDistance_point :: "int \<Rightarrow> HRectBound \<Rightarrow> vec \<Rightarrow> error + real" where
  "MinDistance_point t_pow B point =
     (if length point \<noteq> dim B then Inl AssertionFailed
      else ebind
        (for_loop 0 (dim B)
           (\<lambda>d sum.
              let lower = lo (bounds B ! d) - point ! d;
                  higher = point ! d - hi (bounds B ! d)
              in add_pow t_pow ((lower + \<bar>lower\<bar>) + (higher + \<bar>higher\<bar>)) sum)
           0)
        (\<lambda>sum. ebind (root_pow t_pow sum) (\<lambda>r. Inr (r / 4))))"

text \<open>
  \<open>double HRectBound<t_pow>::MinDistance(const arma::vec& point,
  const std::vector<size_t>& indices) const\<close>
\<close>

definition MinDistance_point_indices ::
  "int \<Rightarrow> HRectBound \<Rightarrow> vec \<Rightarrow> nat list \<Rightarrow> error + real" where
  "MinDistance_point_indices t_pow B point indices =
     (if length point \<noteq> dim B then Inl AssertionFailed
      else ebind
        (for_loop 0 (length indices)
           (\<lambda>index sum.
              let dimension = indices ! index in
              if dim B \<le> dimension then Inl OutOfBounds
              else
                let lower = lo (bounds B ! dimension) - point ! dimension;
                    higher = point ! dimension - hi (bounds B ! dimension)
                in add_pow t_pow ((lower + \<bar>lower\<bar>) + (higher + \<bar>higher\<bar>)) sum)
           0)
        (\<lambda>sum. ebind (root_pow t_pow sum) (\<lambda>r. Inr (r / 4))))"

text \<open>
  \<open>double HRectBound<t_pow>::MinDistance(const HRectBound& other) const\<close>. The source
  walks two pointers \<open>mbound\<close> and \<open>obound\<close> along the arrays; at step \<open>d\<close> they point
  to \<open>bounds[d]\<close> and \<open>other.bounds[d]\<close>.
\<close>

definition MinDistance_bound :: "int \<Rightarrow> HRectBound \<Rightarrow> HRectBound \<Rightarrow> error + real" where
  "MinDistance_bound t_pow B other =
     (if dim B \<noteq> dim other then Inl AssertionFailed
      else ebind
        (for_loop 0 (dim B)
           (\<lambda>d sum.
              let lower = lo (bounds other ! d) - hi (bounds B ! d);
                  higher = lo (bounds B ! d) - hi (bounds other ! d)
              in add_pow t_pow ((lower + \<bar>lower\<bar>) + (higher + \<bar>higher\<bar>)) sum)
           0)
        (\<lambda>sum. ebind (root_pow t_pow sum) (\<lambda>r. Inr (r / 4))))"

text \<open>
  \<open>double HRectBound<t_pow>::MinDistance(const HRectBound& other,
  const std::vector<size_t>& indices) const\<close>
\<close>

definition MinDistance_bound_indices ::
  "int \<Rightarrow> HRectBound \<Rightarrow> HRectBound \<Rightarrow> nat list \<Rightarrow> error + real" where
  "MinDistance_bound_indices t_pow B other indices =
     (if dim B \<noteq> dim other then Inl AssertionFailed
      else ebind
        (for_loop 0 (length indices)
           (\<lambda>index sum.
              let dimension = indices ! index in
              if dim B \<le> dimension then Inl OutOfBounds
              else
                let lower = lo (bounds B ! dimension) - hi (bounds other ! dimension);
                    higher = lo (bounds other ! dimension) - hi (bounds B ! dimension)
                in add_pow t_pow ((lower + \<bar>lower\<bar>) + (higher + \<bar>higher\<bar>)) sum)
           0)
        (\<lambda>sum. ebind (root_pow t_pow sum) (\<lambda>r. Inr (r / 4))))"

subsection \<open>\<open>MaxDistance\<close>\<close>

text \<open>\<open>double HRectBound<t_pow>::MaxDistance(const arma::vec& point) const\<close>\<close>

definition MaxDistance_point :: "int \<Rightarrow> HRectBound \<Rightarrow> vec \<Rightarrow> error + real" where
  "MaxDistance_point t_pow B point =
     (if length point \<noteq> dim B then Inl AssertionFailed
      else ebind
        (for_loop 0 (dim B)
           (\<lambda>d sum.
              let v = \<bar>max (point ! d - lo (bounds B ! d)) (hi (bounds B ! d) - point ! d)\<bar>
              in add_pow t_pow v sum)
           0)
        (\<lambda>sum. root_pow t_pow sum))"

text \<open>
  \<open>double HRectBound<t_pow>::MaxDistance(const arma::vec& point,
  const std::vector<size_t>& indices) const\<close>
\<close>

definition MaxDistance_point_indices ::
  "int \<Rightarrow> HRectBound \<Rightarrow> vec \<Rightarrow> nat list \<Rightarrow> error + real" where
  "MaxDistance_point_indices t_pow B point indices =
     (if length point \<noteq> dim B then Inl AssertionFailed
      else ebind
        (for_loop 0 (length indices)
           (\<lambda>index sum.
              let dimension = indices ! index in
              if dim B \<le> dimension then Inl OutOfBounds
              else
                let lower = \<bar>point ! dimension - lo (bounds B ! dimension)\<bar>;
                    higher = \<bar>point ! dimension - hi (bounds B ! dimension)\<bar>
                in add_pow t_pow (\<bar>higher - lower\<bar> + higher + lower) sum)
           0)
        (\<lambda>sum. ebind (root_pow t_pow sum) (\<lambda>r. Inr (r / 4))))"

text \<open>\<open>double HRectBound<t_pow>::MaxDistance(const HRectBound& other) const\<close>\<close>

definition MaxDistance_bound :: "int \<Rightarrow> HRectBound \<Rightarrow> HRectBound \<Rightarrow> error + real" where
  "MaxDistance_bound t_pow B other =
     (if dim B \<noteq> dim other then Inl AssertionFailed
      else ebind
        (for_loop 0 (dim B)
           (\<lambda>d sum.
              let v = \<bar>max (hi (bounds other ! d) - lo (bounds B ! d))
                           (hi (bounds B ! d) - lo (bounds other ! d))\<bar>
              in add_pow t_pow v sum)
           0)
        (\<lambda>sum. root_pow t_pow sum))"

text \<open>
  \<open>double HRectBound<t_pow>::MaxDistance(const HRectBound& other,
  const std::vector<size_t>& indices) const\<close>
\<close>

definition MaxDistance_bound_indices ::
  "int \<Rightarrow> HRectBound \<Rightarrow> HRectBound \<Rightarrow> nat list \<Rightarrow> error + real" where
  "MaxDistance_bound_indices t_pow B other indices =
     (if dim other \<noteq> dim B then Inl AssertionFailed
      else ebind
        (for_loop 0 (length indices)
           (\<lambda>index sum.
              let dimension = indices ! index in
              if dim B \<le> dimension then Inl OutOfBounds
              else
                let lower = \<bar>hi (bounds other ! dimension) - lo (bounds B ! dimension)\<bar>;
                    higher = \<bar>lo (bounds other ! dimension) - hi (bounds B ! dimension)\<bar>
                in add_pow t_pow (\<bar>higher - lower\<bar> + higher + lower) sum)
           0)
        (\<lambda>sum. ebind (root_pow t_pow sum) (\<lambda>r. Inr (r / 4))))"

subsection \<open>\<open>RangeDistance\<close>\<close>

text \<open>
  The loop state is the pair \<open>(loSum, hiSum)\<close>; the result is
  \<open>math::Range(pow(loSum, 2.0 / t_pow), pow(hiSum, 2.0 / t_pow))\<close>.
\<close>

definition range_step :: "int \<Rightarrow> real \<Rightarrow> real \<Rightarrow> real \<times> real \<Rightarrow> error + real \<times> real" where
  "range_step t_pow vLo vHi acc =
     ebind (add_pow t_pow vLo (fst acc))
       (\<lambda>loSum. ebind (add_pow t_pow vHi (snd acc)) (\<lambda>hiSum. Inr (loSum, hiSum)))"

definition range_result :: "int \<Rightarrow> real \<times> real \<Rightarrow> error + Range" where
  "range_result t_pow acc =
     ebind (root_pow t_pow (fst acc))
       (\<lambda>l. ebind (root_pow t_pow (snd acc)) (\<lambda>h. Inr \<lparr>lo = l, hi = h\<rparr>))"

text \<open>\<open>math::Range HRectBound<t_pow>::RangeDistance(const HRectBound& other) const\<close>\<close>

definition RangeDistance_bound :: "int \<Rightarrow> HRectBound \<Rightarrow> HRectBound \<Rightarrow> error + Range" where
  "RangeDistance_bound t_pow B other =
     (if dim B \<noteq> dim other then Inl AssertionFailed
      else ebind
        (for_loop 0 (dim B)
           (\<lambda>d acc.
              let v1 = lo (bounds other ! d) - hi (bounds B ! d);
                  v2 = lo (bounds B ! d) - hi (bounds other ! d)
              in if v1 \<ge> v2
                 then range_step t_pow (if v1 > 0 then v1 else 0) (- v2) acc
                 else range_step t_pow (if v2 > 0 then v2 else 0) (- v1) acc)
           (0, 0))
        (range_result t_pow))"

text \<open>\<open>math::Range HRectBound<t_pow>::RangeDistance(const arma::vec& point) const\<close>\<close>

definition RangeDistance_point :: "int \<Rightarrow> HRectBound \<Rightarrow> vec \<Rightarrow> error + Range" where
  "RangeDistance_point t_pow B point =
     (if length point \<noteq> dim B then Inl AssertionFailed
      else ebind
        (for_loop 0 (dim B)
           (\<lambda>d acc.
              let v1 = lo (bounds B ! d) - point ! d;
                  v2 = point ! d - hi (bounds B ! d)
              in if v1 \<ge> 0
                 then range_step t_pow v1 (- v2) acc
                 else if v2 \<ge> 0
                 then range_step t_pow v2 (- v1) acc
                 else range_step t_pow 0 (- min v1 v2) acc)
           (0, 0))
        (range_result t_pow))"

subsection \<open>The interval type\<close>

text \<open>
  Modelled from the spec: \<open>math::Range::Contains\<close>, declared in core/math/range.hpp,
  which is not among the sources. The spec: \<open>Contains(x)\<close> returns \<open>lo <= x <= hi\<close>.
\<close>

definition Range_Contains :: "Range \<Rightarrow> real \<Rightarrow> bool" where
  "Range_Contains r x \<longleftrightarrow> lo r \<le> x \<and> x \<le> hi r"

text \<open>
  Modelled from the spec: \<open>math::Range::operator|=\<close> with a scalar (core/math/range.hpp,
  not among the sources). The spec: the interval becomes the smallest interval
  containing both the prior interval and \<open>x\<close>; applied to an empty interval (one that
  contains no point), it produces \<open>[x, x]\<close>.
\<close>

definition Range_union_scalar :: "Range \<Rightarrow> real \<Rightarrow> Range" where
  "Range_union_scalar r x =
     (if hi r < lo r then \<lparr>lo = x, hi = x\<rparr>
      else \<lparr>lo = min (lo r) x, hi = max (hi r) x\<rparr>)"

text \<open>
  Modelled from the spec: \<open>math::Range::operator|=\<close> with another interval
  (core/math/range.hpp, not among the sources). The spec: the axis interval absorbs
  the other interval, and an empty interval is the identity element for union.
\<close>

definition Range_union :: "Range \<Rightarrow> Range \<Rightarrow> Range" where
  "Range_union r s =
     (if hi s < lo s then r
      else if hi r < lo r then s
      else \<lparr>lo = min (lo r) (lo s), hi = max (hi r) (hi s)\<rparr>)"

subsection \<open>Union operators\<close>

text \<open>
  \<open>HRectBound<t_pow>& HRectBound<t_pow>::operator|=(const arma::vec& vector)\<close>: the loop
  state is the array \<open>bounds\<close>, and the result is the updated object.
\<close>

definition union_point :: "HRectBound \<Rightarrow> vec \<Rightarrow> error + HRectBound" where
  "union_point B vector =
     (if length vector \<noteq> dim B then Inl AssertionFailed
      else ebind
        (for_loop 0 (dim B)
           (\<lambda>i bs. Inr (bs[i := Range_union_scalar (bs ! i) (vector ! i)]))
           (bounds B))
        (\<lambda>bs. Inr (B\<lparr>bounds := bs\<rparr>)))"

text \<open>\<open>HRectBound<t_pow>& HRectBound<t_pow>::operator|=(const HRectBound& other)\<close>\<close>

definition union_bound :: "HRectBound \<Rightarrow> HRectBound \<Rightarrow> error + HRectBound" where
  "union_bound B other =
     (if dim other \<noteq> dim B then Inl AssertionFailed
      else ebind
        (for_loop 0 (dim B)
           (\<lambda>i bs. Inr (bs[i := Range_union (bs ! i) (bounds other ! i)]))
           (bounds B))
        (\<lambda>bs. Inr (B\<lparr>bounds := bs\<rparr>)))"

subsection \<open>Tree traits of the binary space tree (binary\_space\_tree/traits.hpp)\<close>

record TreeTraits =
  HasOverlappingChildren :: bool
  FirstPointIsCentroid :: bool
  HasSelfChildren :: bool
  RearrangesDataset :: bool
  BinaryTree :: bool

text \<open>The specialisation \<open>TreeTraits<BinarySpaceTree<...>>\<close> and its static constants.\<close>

definition TreeTraits_BinarySpaceTree :: TreeTraits where
  "TreeTraits_BinarySpaceTree =
     \<lparr>HasOverlappingChildren = False,
      FirstPointIsCentroid = False,
      HasSelfChildren = False,
      RearrangesDataset = True,
      BinaryTree = True\<rparr>"

subsection \<open>Notions used to state the properties\<close>

text \<open>A bound whose axis intervals are well-formed: \<open>lo \<le> hi\<close> on each axis.\<close>

definition well_formed :: "HRectBound \<Rightarrow> bool" where
  "well_formed B \<longleftrightarrow> (\<forall>d < dim B. lo (bounds B ! d) \<le> hi (bounds B ! d))"

text \<open>A point of the right length that lies in the bound on every axis.\<close>

definition inside :: "HRectBound \<Rightarrow> vec \<Rightarrow> bool" where
  "inside B y \<longleftrightarrow>
     length y = dim B \<and> (\<forall>d < dim B. lo (bounds B ! d) \<le> y ! d \<and> y ! d \<le> hi (bounds B ! d))"

text \<open>The squared Euclidean distance of two points with \<open>n\<close> coordinates.\<close>

definition sqdist :: "nat \<Rightarrow> vec \<Rightarrow> vec \<Rightarrow> real" where
  "sqdist n x y = (\<Sum>d<n. (x ! d - y ! d)\<^sup>2)"

text \<open>The bound \<open>[0,10] x [0,10]\<close> of the worked examples.\<close>

definition example_box :: HRectBound where
  "example_box = \<lparr>dim = 2, bounds = [\<lparr>lo = 0, hi = 10\<rparr>, \<lparr>lo = 0, hi = 10\<rparr>]\<rparr>"

text \<open>A second bound, \<open>[20,30] x [0,10]\<close>, for bound-to-bound examples.\<close>

definition example_other :: HRectBound where
  "example_other = \<lparr>dim = 2, bounds = [\<lparr>lo = 20, hi = 30\<rparr>, \<lparr>lo = 0, hi = 10\<rparr>]\<rparr>"

text \<open>The point of a bound closest to \<open>x\<close>: \<open>x\<close> clamped into each axis interval.\<close>

definition nearest :: "HRectBound \<Rightarrow> vec \<Rightarrow> vec" where
  "nearest B x = map (\<lambda>d. max (lo (bounds B ! d)) (min (hi (bounds B ! d)) (x ! d))) [0..<dim B]"

section \<open>Properties\<close>

subsection \<open>Evaluation of the building blocks\<close>

lemma ebind_Inr [simp]: "ebind (Inr v) f = f v"
  by (simp add: ebind_def)

lemma ebind_Inl [simp]: "ebind (Inl e) f = Inl e"
  by (simp add: ebind_def)

lemma pow_of_int_pos: "0 < p \<Longrightarrow> pow x (of_int p) = Inr (x ^ nat p)"
proof -
  assume p: "0 < p"
  then obtain n where n: "p = int n" "0 < n"
    by (metis pos_int_cases zero_less_nat_eq nat_int)
  have "x powr real n = x ^ n" if "0 < x"
    using that by (simp add: powr_realpow)
  moreover have "x powi int n = x ^ n"
    by simp
  ultimately show ?thesis
    using n by (auto simp: pow_def)
qed

lemma add_pow_pos: "0 < p \<Longrightarrow> add_pow p v s = Inr (s + v ^ nat p)"
  by (simp add: add_pow_def pow_of_int_pos)

lemma root_pow_nonneg:
  "0 < p \<Longrightarrow> 0 \<le> s \<Longrightarrow> root_pow p s = Inr (s powr (2 / of_int p))"
  by (auto simp: root_pow_def fdiv_def pow_def)

lemma for_loop_done: "n \<le> i \<Longrightarrow> for_loop i n body s = Inr s"
  by (simp add: for_loop.simps)

lemma for_loop_step: "i < n \<Longrightarrow> for_loop i n body s = ebind (body i s) (for_loop (Suc i) n body)"
  by (subst for_loop.simps) simp

lemma for_loop_sum_from:
  assumes "\<And>d s. i \<le> d \<Longrightarrow> d < n \<Longrightarrow> body d s = Inr (s + f d)"
  shows "for_loop i n body s = Inr (s + (\<Sum>d = i..<n. f d))"
  using assms
proof (induction i n body s rule: for_loop.induct)
  case (1 i n body s)
  show ?case
  proof (cases "i < n")
    case True
    have "for_loop (Suc i) n body (s + f i) = Inr (s + f i + (\<Sum>d = Suc i..<n. f d))"
      using "1.IH"[OF True, of "s + f i"] "1.prems" True by simp
    then show ?thesis
      using True "1.prems"[of i s] by (simp add: for_loop_step sum.atLeast_Suc_lessThan add.assoc)
  next
    case False
    then show ?thesis by (simp add: for_loop_done)
  qed
qed

lemma for_loop_sum:
  assumes "\<And>d s. d < n \<Longrightarrow> body d s = Inr (s + f d)"
  shows "for_loop 0 n body (0::real) = Inr (\<Sum>d<n. f d)"
  using for_loop_sum_from[of 0 n body f 0] assms by (simp add: atLeast0LessThan)

lemma for_loop_sum_list:
  assumes "\<And>k s. k < length xs \<Longrightarrow> body k s = Inr (s + g (xs ! k))"
  shows "for_loop 0 (length xs) body (0::real) = Inr (\<Sum>i\<leftarrow>xs. g i)"
proof -
  have "for_loop 0 (length xs) body 0 = Inr (\<Sum>k<length xs. g (xs ! k))"
    using assms by (rule for_loop_sum)
  moreover have "(\<Sum>k<length xs. g (xs ! k)) = (\<Sum>i\<leftarrow>xs. g i)"
    by (simp add: sum_list_sum_nth atLeast0LessThan)
  ultimately show ?thesis by simp
qed

lemma scale_root:
  assumes "0 < p" "0 \<le> S"
  shows "((2::real) ^ nat p * S) powr (2 / of_int p) / 4 = S powr (2 / of_int p)"
proof -
  obtain n where n: "p = int n" "0 < n"
    using assms(1) by (metis pos_int_cases zero_less_nat_eq nat_int)
  have "((2::real) ^ n) powr (2 / real n) = (2 powr real n) powr (2 / real n)"
    by (simp add: powr_realpow)
  also have "\<dots> = 2 powr 2"
    using n by (simp add: powr_powr)
  finally have "((2::real) ^ n) powr (2 / real n) = 4" by simp
  then show ?thesis
    using n assms(2) by (simp add: powr_mult)
qed

subsection \<open>Closed forms of the point-to-bound distances\<close>

lemma MinDistance_point_closed:
  assumes "0 < t_pow" "length x = dim B"
  shows "MinDistance_point t_pow B x =
           Inr ((\<Sum>d<dim B.
                   (let lower = lo (bounds B ! d) - x ! d;
                        higher = x ! d - hi (bounds B ! d)
                    in ((lower + \<bar>lower\<bar>) + (higher + \<bar>higher\<bar>)) ^ nat t_pow))
                powr (2 / of_int t_pow) / 4)"
proof -
  let ?f = "\<lambda>d. (let lower = lo (bounds B ! d) - x ! d;
                        higher = x ! d - hi (bounds B ! d)
                    in ((lower + \<bar>lower\<bar>) + (higher + \<bar>higher\<bar>)) ^ nat t_pow)"
  have loop: "for_loop 0 (dim B)
           (\<lambda>d sum.
              let lower = lo (bounds B ! d) - x ! d;
                  higher = x ! d - hi (bounds B ! d)
              in add_pow t_pow ((lower + \<bar>lower\<bar>) + (higher + \<bar>higher\<bar>)) sum)
           0 = Inr (\<Sum>d<dim B. ?f d)"
    by (rule for_loop_sum) (simp add: Let_def add_pow_pos assms(1))
  have "0 \<le> (\<Sum>d<dim B. ?f d)"
    by (intro sum_nonneg) (simp add: Let_def)
  then show ?thesis
    unfolding MinDistance_point_def loop using assms by (simp add: root_pow_nonneg)
qed

lemma MinDistance_point_inside:
  assumes "0 < t_pow" "inside B x"
  shows "MinDistance_point t_pow B x = Inr 0"
proof -
  have len: "length x = dim B"
    using assms(2) by (simp add: inside_def)
  let ?f = "\<lambda>d. (let lower = lo (bounds B ! d) - x ! d;
                        higher = x ! d - hi (bounds B ! d)
                    in ((lower + \<bar>lower\<bar>) + (higher + \<bar>higher\<bar>)) ^ nat t_pow)"
  have "?f d = 0" if "d < dim B" for d
  proof -
    have "lo (bounds B ! d) - x ! d \<le> 0" "x ! d - hi (bounds B ! d) \<le> 0"
      using assms(2) that by (auto simp: inside_def)
    then have "lo (bounds B ! d) - x ! d + \<bar>lo (bounds B ! d) - x ! d\<bar> = 0"
      and "x ! d - hi (bounds B ! d) + \<bar>x ! d - hi (bounds B ! d)\<bar> = 0"
      by linarith+
    then show ?thesis
      unfolding Let_def using assms(1) by simp
  qed
  then have "(\<Sum>d<dim B. ?f d) = 0"
    by (intro sum.neutral) blast
  then show ?thesis
    unfolding MinDistance_point_closed[OF assms(1) len] by simp
qed

lemma MaxDistance_point_closed:
  assumes "0 < t_pow" "length x = dim B"
  shows "MaxDistance_point t_pow B x =
           Inr ((\<Sum>d<dim B.
                   \<bar>max (x ! d - lo (bounds B ! d)) (hi (bounds B ! d) - x ! d)\<bar> ^ nat t_pow)
                powr (2 / of_int t_pow))"
proof -
  let ?f = "\<lambda>d. \<bar>max (x ! d - lo (bounds B ! d)) (hi (bounds B ! d) - x ! d)\<bar> ^ nat t_pow"
  have loop: "for_loop 0 (dim B)
           (\<lambda>d sum.
              let v = \<bar>max (x ! d - lo (bounds B ! d)) (hi (bounds B ! d) - x ! d)\<bar>
              in add_pow t_pow v sum)
           0 = Inr (\<Sum>d<dim B. ?f d)"
    by (rule for_loop_sum) (simp add: Let_def add_pow_pos assms(1))
  have "0 \<le> (\<Sum>d<dim B. ?f d)"
    by (intro sum_nonneg) simp
  then show ?thesis
    unfolding MaxDistance_point_def loop using assms by (simp add: root_pow_nonneg)
qed

subsection \<open>Closed forms of the bound-to-bound and the filtered distances\<close>

lemma MinDistance_bound_closed:
  assumes "0 < t_pow" "dim other = dim B"
  shows "MinDistance_bound t_pow B other =
           Inr ((\<Sum>d<dim B.
                   (let lower = lo (bounds other ! d) - hi (bounds B ! d);
                        higher = lo (bounds B ! d) - hi (bounds other ! d)
                    in ((lower + \<bar>lower\<bar>) + (higher + \<bar>higher\<bar>)) ^ nat t_pow))
                powr (2 / of_int t_pow) / 4)"
proof -
  let ?f = "\<lambda>d. (let lower = lo (bounds other ! d) - hi (bounds B ! d);
                        higher = lo (bounds B ! d) - hi (bounds other ! d)
                    in ((lower + \<bar>lower\<bar>) + (higher + \<bar>higher\<bar>)) ^ nat t_pow)"
  have loop: "for_loop 0 (dim B)
           (\<lambda>d sum.
              let lower = lo (bounds other ! d) - hi (bounds B ! d);
                  higher = lo (bounds B ! d) - hi (bounds other ! d)
              in add_pow t_pow ((lower + \<bar>lower\<bar>) + (higher + \<bar>higher\<bar>)) sum)
           0 = Inr (\<Sum>d<dim B. ?f d)"
    by (rule for_loop_sum) (simp add: Let_def add_pow_pos assms(1))
  have "0 \<le> (\<Sum>d<dim B. ?f d)"
    by (intro sum_nonneg) (simp add: Let_def)
  then show ?thesis
    unfolding MinDistance_bound_def loop using assms by (simp add: root_pow_nonneg)
qed

lemma MaxDistance_bound_closed:
  assumes "0 < t_pow" "dim other = dim B"
  shows "MaxDistance_bound t_pow B other =
           Inr ((\<Sum>d<dim B.
                   \<bar>max (hi (bounds other ! d) - lo (bounds B ! d))
                        (hi (bounds B ! d) - lo (bounds other ! d))\<bar> ^ nat t_pow)
                powr (2 / of_int t_pow))"
proof -
  let ?f = "\<lambda>d. \<bar>max (hi (bounds other ! d) - lo (bounds B ! d))
                        (hi (bounds B ! d) - lo (bounds other ! d))\<bar> ^ nat t_pow"
  have loop: "for_loop 0 (dim B)
           (\<lambda>d sum.
              let v = \<bar>max (hi (bounds other ! d) - lo (bounds B ! d))
                           (hi (bounds B ! d) - lo (bounds other ! d))\<bar>
              in add_pow t_pow v sum)
           0 = Inr (\<Sum>d<dim B. ?f d)"
    by (rule for_loop_sum) (simp add: Let_def add_pow_pos assms(1))
  have "0 \<le> (\<Sum>d<dim B. ?f d)"
    by (intro sum_nonneg) simp
  then show ?thesis
    unfolding MaxDistance_bound_def loop using assms by (simp add: root_pow_nonneg)
qed

lemma sum_list_power_nonneg: "(\<And>i. 0 \<le> g i) \<Longrightarrow> 0 \<le> (\<Sum>i\<leftarrow>xs. (g i :: real) ^ n)"
  by (intro sum_list_nonneg) auto

lemma MinDistance_point_indices_closed:
  assumes "0 < t_pow" "length x = dim B" "\<forall>i\<in>set indices. i < dim B"
  shows "MinDistance_point_indices t_pow B x indices =
           Inr ((\<Sum>i\<leftarrow>indices.
                   (let lower = lo (bounds B ! i) - x ! i;
                        higher = x ! i - hi (bounds B ! i)
                    in ((lower + \<bar>lower\<bar>) + (higher + \<bar>higher\<bar>)) ^ nat t_pow))
                powr (2 / of_int t_pow) / 4)"
proof -
  let ?g = "\<lambda>i. (let lower = lo (bounds B ! i) - x ! i;
                        higher = x ! i - hi (bounds B ! i)
                    in ((lower + \<bar>lower\<bar>) + (higher + \<bar>higher\<bar>)) ^ nat t_pow)"
  have loop: "for_loop 0 (length indices)
           (\<lambda>index sum.
              let dimension = indices ! index in
              if dim B \<le> dimension then Inl OutOfBounds
              else
                let lower = lo (bounds B ! dimension) - x ! dimension;
                    higher = x ! dimension - hi (bounds B ! dimension)
                in add_pow t_pow ((lower + \<bar>lower\<bar>) + (higher + \<bar>higher\<bar>)) sum)
           0 = Inr (\<Sum>i\<leftarrow>indices. ?g i)"
    using assms(3) by (intro for_loop_sum_list) (simp add: Let_def add_pow_pos assms(1) not_le)
  have "0 \<le> (\<Sum>i\<leftarrow>indices. ?g i)"
    by (intro sum_list_nonneg) (auto simp: Let_def)
  then show ?thesis
    unfolding MinDistance_point_indices_def loop using assms by (simp add: root_pow_nonneg)
qed

lemma MinDistance_bound_indices_closed:
  assumes "0 < t_pow" "dim other = dim B" "\<forall>i\<in>set indices. i < dim B"
  shows "MinDistance_bound_indices t_pow B other indices =
           Inr ((\<Sum>i\<leftarrow>indices.
                   (let lower = lo (bounds B ! i) - hi (bounds other ! i);
                        higher = lo (bounds other ! i) - hi (bounds B ! i)
                    in ((lower + \<bar>lower\<bar>) + (higher + \<bar>higher\<bar>)) ^ nat t_pow))
                powr (2 / of_int t_pow) / 4)"
proof -
  let ?g = "\<lambda>i. (let lower = lo (bounds B ! i) - hi (bounds other ! i);
                        higher = lo (bounds other ! i) - hi (bounds B ! i)
                    in ((lower + \<bar>lower\<bar>) + (higher + \<bar>higher\<bar>)) ^ nat t_pow)"
  have loop: "for_loop 0 (length indices)
           (\<lambda>index sum.
              let dimension = indices ! index in
              if dim B \<le> dimension then Inl OutOfBounds
              else
                let lower = lo (bounds B ! dimension) - hi (bounds other ! dimension);
                    higher = lo (bounds other ! dimension) - hi (bounds B ! dimension)
                in add_pow t_pow ((lower + \<bar>lower\<bar>) + (higher + \<bar>higher\<bar>)) sum)
           0 = Inr (\<Sum>i\<leftarrow>indices. ?g i)"
    using assms(3) by (intro for_loop_sum_list) (simp add: Let_def add_pow_pos assms(1) not_le)
  have "0 \<le> (\<Sum>i\<leftarrow>indices. ?g i)"
    by (intro sum_list_nonneg) (auto simp: Let_def)
  then show ?thesis
    unfolding MinDistance_bound_indices_def loop using assms by (simp add: root_pow_nonneg)
qed

lemma MaxDistance_point_indices_closed:
  assumes "0 < t_pow" "length x = dim B" "\<forall>i\<in>set indices. i < dim B"
  shows "MaxDistance_point_indices t_pow B x indices =
           Inr ((\<Sum>i\<leftarrow>indices.
                   (let lower = \<bar>x ! i - lo (bounds B ! i)\<bar>;
                        higher = \<bar>x ! i - hi (bounds B ! i)\<bar>
                    in (\<bar>higher - lower\<bar> + higher + lower) ^ nat t_pow))
                powr (2 / of_int t_pow) / 4)"
proof -
  let ?g = "\<lambda>i. (let lower = \<bar>x ! i - lo (bounds B ! i)\<bar>;
                        higher = \<bar>x ! i - hi (bounds B ! i)\<bar>
                    in (\<bar>higher - lower\<bar> + higher + lower) ^ nat t_pow)"
  have loop: "for_loop 0 (length indices)
           (\<lambda>index sum.
              let dimension = indices ! index in
              if dim B \<le> dimension then Inl OutOfBounds
              else
                let lower = \<bar>x ! dimension - lo (bounds B ! dimension)\<bar>;
                    higher = \<bar>x ! dimension - hi (bounds B ! dimension)\<bar>
                in add_pow t_pow (\<bar>higher - lower\<bar> + higher + lower) sum)
           0 = Inr (\<Sum>i\<leftarrow>indices. ?g i)"
    using assms(3) by (intro for_loop_sum_list) (simp add: Let_def add_pow_pos assms(1) not_le)
  have "0 \<le> (\<Sum>i\<leftarrow>indices. ?g i)"
    by (intro sum_list_nonneg) (auto simp: Let_def)
  then show ?thesis
    unfolding MaxDistance_point_indices_def loop using assms by (simp add: root_pow_nonneg)
qed

lemma MaxDistance_bound_indices_closed:
  assumes "0 < t_pow" "dim other = dim B" "\<forall>i\<in>set indices. i < dim B"
  shows "MaxDistance_bound_indices t_pow B other indices =
           Inr ((\<Sum>i\<leftarrow>indices.
                   (let lower = \<bar>hi (bounds other ! i) - lo (bounds B ! i)\<bar>;
                        higher = \<bar>lo (bounds other ! i) - hi (bounds B ! i)\<bar>
                    in (\<bar>higher - lower\<bar> + higher + lower) ^ nat t_pow))
                powr (2 / of_int t_pow) / 4)"
proof -
  let ?g = "\<lambda>i. (let lower = \<bar>hi (bounds other ! i) - lo (bounds B ! i)\<bar>;
                        higher = \<bar>lo (bounds other ! i) - hi (bounds B ! i)\<bar>
                    in (\<bar>higher - lower\<bar> + higher + lower) ^ nat t_pow)"
  have loop: "for_loop 0 (length indices)
           (\<lambda>index sum.
              let dimension = indices ! index in
              if dim B \<le> dimension then Inl OutOfBounds
              else
                let lower = \<bar>hi (bounds other ! dimension) - lo (bounds B ! dimension)\<bar>;
                    higher = \<bar>lo (bounds other ! dimension) - hi (bounds B ! dimension)\<bar>
                in add_pow t_pow (\<bar>higher - lower\<bar> + higher + lower) sum)
           0 = Inr (\<Sum>i\<leftarrow>indices. ?g i)"
    using assms(3) by (intro for_loop_sum_list) (simp add: Let_def add_pow_pos assms(1) not_le)
  have "0 \<le> (\<Sum>i\<leftarrow>indices. ?g i)"
    by (intro sum_list_nonneg) (auto simp: Let_def)
  then show ?thesis
    unfolding MaxDistance_bound_indices_def loop using assms by (simp add: root_pow_nonneg)
qed

subsection \<open>Auxiliary facts\<close>

lemma for_loop_empty: "for_loop 0 0 body s = Inr s"
  by (simp add: for_loop_done)

lemma root_pow_zero: "0 < t_pow \<Longrightarrow> root_pow t_pow 0 = Inr 0"
  by (simp add: root_pow_nonneg)

lemma range_result_zero: "0 < t_pow \<Longrightarrow> range_result t_pow (0, 0) = Inr \<lparr>lo = 0, hi = 0\<rparr>"
  by (simp add: range_result_def root_pow_zero)

lemma max_terms:
  fixes a b :: real
  assumes "0 \<le> a + b"
  shows "\<bar>\<bar>b\<bar> - \<bar>a\<bar>\<bar> + \<bar>b\<bar> + \<bar>a\<bar> = 2 * \<bar>max a b\<bar>"
  using assms by (auto simp: max_def abs_if)

lemma sum_scaled_root:
  assumes "0 < t_pow" "\<And>d. d < n \<Longrightarrow> 0 \<le> f d" "distinct indices" "set indices = {..<n}"
  shows "(\<Sum>i\<leftarrow>indices. (2 * f i) ^ nat t_pow) powr (2 / of_int t_pow) / 4
         = (\<Sum>d<n. (f d :: real) ^ nat t_pow) powr (2 / of_int t_pow)"
proof -
  have "(\<Sum>i\<leftarrow>indices. (2 * f i) ^ nat t_pow) = (\<Sum>d<n. (2 * f d) ^ nat t_pow)"
    using assms(3,4) by (simp add: sum_list_distinct_conv_sum_set)
  also have "\<dots> = 2 ^ nat t_pow * (\<Sum>d<n. f d ^ nat t_pow)"
    by (simp add: power_mult_distrib sum_distrib_left)
  finally have "(\<Sum>i\<leftarrow>indices. (2 * f i) ^ nat t_pow) = 2 ^ nat t_pow * (\<Sum>d<n. f d ^ nat t_pow)" .
  moreover have "0 \<le> (\<Sum>d<n. f d ^ nat t_pow)"
    using assms(2) by (intro sum_nonneg) simp
  ultimately show ?thesis
    using assms(1) by (simp add: scale_root)
qed

lemma point_term:
  fixes x l h :: real
  assumes "l \<le> h"
  shows "(let lower = \<bar>x - l\<bar>; higher = \<bar>x - h\<bar>
          in (\<bar>higher - lower\<bar> + higher + lower) ^ n) = (2 * \<bar>max (x - l) (h - x)\<bar>) ^ n"
proof -
  have "\<bar>\<bar>h - x\<bar> - \<bar>x - l\<bar>\<bar> + \<bar>h - x\<bar> + \<bar>x - l\<bar> = 2 * \<bar>max (x - l) (h - x)\<bar>"
    using assms by (intro max_terms) simp
  then show ?thesis
    by (simp add: Let_def abs_minus_commute[of x h])
qed

lemma bound_term:
  fixes l h ol oh :: real
  assumes "l \<le> h" "ol \<le> oh"
  shows "(let lower = \<bar>oh - l\<bar>; higher = \<bar>ol - h\<bar>
          in (\<bar>higher - lower\<bar> + higher + lower) ^ n) = (2 * \<bar>max (oh - l) (h - ol)\<bar>) ^ n"
proof -
  have "\<bar>\<bar>h - ol\<bar> - \<bar>oh - l\<bar>\<bar> + \<bar>h - ol\<bar> + \<bar>oh - l\<bar> = 2 * \<bar>max (oh - l) (h - ol)\<bar>"
    using assms by (intro max_terms) simp
  then show ?thesis
    by (simp add: Let_def abs_minus_commute[of ol h])
qed

lemma MaxDistance_point_indices_all:
  assumes "0 < t_pow" "well_formed B" "distinct indices" "set indices = {..<dim B}"
    "length x = dim B"
  shows "MaxDistance_point_indices t_pow B x indices = MaxDistance_point t_pow B x"
proof -
  let ?v = "\<lambda>d. \<bar>max (x ! d - lo (bounds B ! d)) (hi (bounds B ! d) - x ! d)\<bar>"
  have idx: "\<forall>i\<in>set indices. i < dim B"
    using assms(4) by simp
  have "map (\<lambda>i. (let lower = \<bar>x ! i - lo (bounds B ! i)\<bar>;
                        higher = \<bar>x ! i - hi (bounds B ! i)\<bar>
                    in (\<bar>higher - lower\<bar> + higher + lower) ^ nat t_pow)) indices
        = map (\<lambda>i. (2 * ?v i) ^ nat t_pow) indices"
    using idx assms(2) by (intro map_cong refl point_term) (simp add: well_formed_def)
  then have eq: "(\<Sum>i\<leftarrow>indices. (let lower = \<bar>x ! i - lo (bounds B ! i)\<bar>;
                        higher = \<bar>x ! i - hi (bounds B ! i)\<bar>
                    in (\<bar>higher - lower\<bar> + higher + lower) ^ nat t_pow))
        = (\<Sum>i\<leftarrow>indices. (2 * ?v i) ^ nat t_pow)"
    by (rule arg_cong)
  have r: "(\<Sum>i\<leftarrow>indices. (2 * ?v i) ^ nat t_pow) powr (2 / of_int t_pow) / 4
         = (\<Sum>d<dim B. ?v d ^ nat t_pow) powr (2 / of_int t_pow)"
    by (rule sum_scaled_root[OF assms(1) _ assms(3,4)]) simp
  show ?thesis
    unfolding MaxDistance_point_indices_closed[OF assms(1,5) idx]
      MaxDistance_point_closed[OF assms(1,5)] eq r
    by (rule refl)
qed

lemma MaxDistance_bound_indices_all:
  assumes "0 < t_pow" "well_formed B" "distinct indices" "set indices = {..<dim B}"
    "well_formed other" "dim other = dim B"
  shows "MaxDistance_bound_indices t_pow B other indices = MaxDistance_bound t_pow B other"
proof -
  let ?v = "\<lambda>d. \<bar>max (hi (bounds other ! d) - lo (bounds B ! d))
                        (hi (bounds B ! d) - lo (bounds other ! d))\<bar>"
  have idx: "\<forall>i\<in>set indices. i < dim B"
    using assms(4) by simp
  have "map (\<lambda>i. (let lower = \<bar>hi (bounds other ! i) - lo (bounds B ! i)\<bar>;
                        higher = \<bar>lo (bounds other ! i) - hi (bounds B ! i)\<bar>
                    in (\<bar>higher - lower\<bar> + higher + lower) ^ nat t_pow)) indices
        = map (\<lambda>i. (2 * ?v i) ^ nat t_pow) indices"
    using idx assms(2,5,6) by (intro map_cong refl bound_term) (simp_all add: well_formed_def)
  then have eq: "(\<Sum>i\<leftarrow>indices. (let lower = \<bar>hi (bounds other ! i) - lo (bounds B ! i)\<bar>;
                        higher = \<bar>lo (bounds other ! i) - hi (bounds B ! i)\<bar>
                    in (\<bar>higher - lower\<bar> + higher + lower) ^ nat t_pow))
        = (\<Sum>i\<leftarrow>indices. (2 * ?v i) ^ nat t_pow)"
    by (rule arg_cong)
  have r: "(\<Sum>i\<leftarrow>indices. (2 * ?v i) ^ nat t_pow) powr (2 / of_int t_pow) / 4
         = (\<Sum>d<dim B. ?v d ^ nat t_pow) powr (2 / of_int t_pow)"
    by (rule sum_scaled_root[OF assms(1) _ assms(3,4)]) simp
  show ?thesis
    unfolding MaxDistance_bound_indices_closed[OF assms(1,6) idx]
      MaxDistance_bound_closed[OF assms(1,6)] eq r
    by (rule refl)
qed

lemma well_formed_example_box: "well_formed example_box"
  by (simp add: well_formed_def example_box_def less_2_cases_iff)

lemma well_formed_example_other: "well_formed example_other"
  by (simp add: well_formed_def example_other_def less_2_cases_iff)

subsection \<open>Closed forms of \<open>RangeDistance\<close>\<close>

lemma range_step_pos:
  "0 < t_pow \<Longrightarrow>
     range_step t_pow vLo vHi acc = Inr (fst acc + vLo ^ nat t_pow, snd acc + vHi ^ nat t_pow)"
  by (simp add: range_step_def add_pow_pos)

lemma for_loop_sum2_from:
  assumes "\<And>d acc. i \<le> d \<Longrightarrow> d < n \<Longrightarrow> body d acc = Inr (fst acc + f d, snd acc + g d)"
  shows "for_loop i n body acc
           = Inr (fst acc + (\<Sum>d = i..<n. f d), snd acc + (\<Sum>d = i..<n. (g d :: real)))"
  using assms
proof (induction i n body acc rule: for_loop.induct)
  case (1 i n body acc)
  show ?case
  proof (cases "i < n")
    case True
    have "for_loop (Suc i) n body (fst acc + f i, snd acc + g i)
            = Inr (fst acc + f i + (\<Sum>d = Suc i..<n. f d), snd acc + g i + (\<Sum>d = Suc i..<n. g d))"
      using "1.IH"[OF True, of "(fst acc + f i, snd acc + g i)"] "1.prems" True by simp
    then show ?thesis
      using True "1.prems"[of i acc]
      by (simp add: for_loop_step sum.atLeast_Suc_lessThan add.assoc)
  next
    case False
    then show ?thesis by (simp add: for_loop_done)
  qed
qed

lemma for_loop_sum2:
  assumes "\<And>d acc. d < n \<Longrightarrow> body d acc = Inr (fst acc + f d, snd acc + g d)"
  shows "for_loop 0 n body (0, 0) = Inr (\<Sum>d<n. f d, \<Sum>d<n. (g d :: real))"
  using for_loop_sum2_from[of 0 n body f g "(0, 0)"] assms by (simp add: atLeast0LessThan)

lemma range_result_nonneg:
  assumes "0 < t_pow" "0 \<le> a" "0 \<le> b"
  shows "range_result t_pow (a, b)
           = Inr \<lparr>lo = a powr (2 / of_int t_pow), hi = b powr (2 / of_int t_pow)\<rparr>"
  using assms by (simp add: range_result_def root_pow_nonneg)

text \<open>The per-axis minimum and maximum terms of the point form.\<close>

lemma range_point_axis:
  fixes x l h :: real
  assumes "0 < t_pow" "l \<le> h"
  shows "(let v1 = l - x; v2 = x - h
          in if v1 \<ge> 0
             then range_step t_pow v1 (- v2) acc
             else if v2 \<ge> 0
             then range_step t_pow v2 (- v1) acc
             else range_step t_pow 0 (- min v1 v2) acc)
         = Inr (fst acc + (((l - x + \<bar>l - x\<bar>) + (x - h + \<bar>x - h\<bar>)) / 2) ^ nat t_pow,
                snd acc + \<bar>max (x - l) (h - x)\<bar> ^ nat t_pow)"
proof -
  consider "l - x \<ge> 0" | "l - x < 0" "x - h \<ge> 0" | "l - x < 0" "x - h < 0"
    by linarith
  then show ?thesis
  proof cases
    case 1
    then have "((l - x + \<bar>l - x\<bar>) + (x - h + \<bar>x - h\<bar>)) / 2 = l - x"
      and "\<bar>max (x - l) (h - x)\<bar> = - (x - h)"
      using assms(2) by (auto simp: max_def)
    then show ?thesis
      using 1 assms(1) by (simp only: Let_def range_step_pos if_True)
  next
    case 2
    then have "((l - x + \<bar>l - x\<bar>) + (x - h + \<bar>x - h\<bar>)) / 2 = x - h"
      and "\<bar>max (x - l) (h - x)\<bar> = - (l - x)"
      using assms(2) by (auto simp: max_def)
    moreover have "\<not> l - x \<ge> 0"
      using 2 by simp
    ultimately show ?thesis
      using 2 assms(1) by (simp only: Let_def range_step_pos if_True if_False)
  next
    case 3
    then have "((l - x + \<bar>l - x\<bar>) + (x - h + \<bar>x - h\<bar>)) / 2 = 0"
      and "\<bar>max (x - l) (h - x)\<bar> = - min (l - x) (x - h)"
      using assms(2) by (auto simp: max_def min_def)
    moreover have "\<not> l - x \<ge> 0" "\<not> x - h \<ge> 0"
      using 3 by simp_all
    ultimately show ?thesis
      using assms(1) by (simp only: Let_def range_step_pos if_False)
  qed
qed

lemma range_bound_axis:
  fixes l h ol oh :: real
  assumes "0 < t_pow" "l \<le> h" "ol \<le> oh"
  shows "(let v1 = ol - h; v2 = l - oh
          in if v1 \<ge> v2
             then range_step t_pow (if v1 > 0 then v1 else 0) (- v2) acc
             else range_step t_pow (if v2 > 0 then v2 else 0) (- v1) acc)
         = Inr (fst acc + (((ol - h + \<bar>ol - h\<bar>) + (l - oh + \<bar>l - oh\<bar>)) / 2) ^ nat t_pow,
                snd acc + \<bar>max (oh - l) (h - ol)\<bar> ^ nat t_pow)"
proof (cases "ol - h \<ge> l - oh")
  case True
  then have "((ol - h + \<bar>ol - h\<bar>) + (l - oh + \<bar>l - oh\<bar>)) / 2 = (if ol - h > 0 then ol - h else 0)"
    and "\<bar>max (oh - l) (h - ol)\<bar> = - (l - oh)"
    using assms(2,3) by (auto simp: max_def)
  then show ?thesis
    using True assms(1) by (simp only: Let_def range_step_pos if_True)
next
  case False
  then have "((ol - h + \<bar>ol - h\<bar>) + (l - oh + \<bar>l - oh\<bar>)) / 2 = (if l - oh > 0 then l - oh else 0)"
    and "\<bar>max (oh - l) (h - ol)\<bar> = - (ol - h)"
    using assms(2,3) by (auto simp: max_def)
  then show ?thesis
    using False assms(1) by (simp only: Let_def range_step_pos if_False)
qed

lemma RangeDistance_point_closed:
  assumes "0 < t_pow" "well_formed B" "length x = dim B"
  shows "RangeDistance_point t_pow B x =
           Inr \<lparr>lo = (\<Sum>d<dim B.
                        (((lo (bounds B ! d) - x ! d + \<bar>lo (bounds B ! d) - x ! d\<bar>)
                          + (x ! d - hi (bounds B ! d) + \<bar>x ! d - hi (bounds B ! d)\<bar>)) / 2)
                        ^ nat t_pow) powr (2 / of_int t_pow),
                hi = (\<Sum>d<dim B.
                        \<bar>max (x ! d - lo (bounds B ! d)) (hi (bounds B ! d) - x ! d)\<bar>
                        ^ nat t_pow) powr (2 / of_int t_pow)\<rparr>"
proof -
  let ?f = "\<lambda>d. (((lo (bounds B ! d) - x ! d + \<bar>lo (bounds B ! d) - x ! d\<bar>)
                          + (x ! d - hi (bounds B ! d) + \<bar>x ! d - hi (bounds B ! d)\<bar>)) / 2)
                        ^ nat t_pow"
  let ?g = "\<lambda>d. \<bar>max (x ! d - lo (bounds B ! d)) (hi (bounds B ! d) - x ! d)\<bar> ^ nat t_pow"
  have loop: "for_loop 0 (dim B)
           (\<lambda>d acc.
              let v1 = lo (bounds B ! d) - x ! d;
                  v2 = x ! d - hi (bounds B ! d)
              in if v1 \<ge> 0
                 then range_step t_pow v1 (- v2) acc
                 else if v2 \<ge> 0
                 then range_step t_pow v2 (- v1) acc
                 else range_step t_pow 0 (- min v1 v2) acc)
           (0, 0) = Inr (\<Sum>d<dim B. ?f d, \<Sum>d<dim B. ?g d)"
  proof (rule for_loop_sum2)
    fix d acc
    assume "d < dim B"
    then have "lo (bounds B ! d) \<le> hi (bounds B ! d)"
      using assms(2) by (simp add: well_formed_def)
    then show "(let v1 = lo (bounds B ! d) - x ! d;
                  v2 = x ! d - hi (bounds B ! d)
              in if v1 \<ge> 0
                 then range_step t_pow v1 (- v2) acc
                 else if v2 \<ge> 0
                 then range_step t_pow v2 (- v1) acc
                 else range_step t_pow 0 (- min v1 v2) acc)
              = Inr (fst acc + ?f d, snd acc + ?g d)"
      by (rule range_point_axis[OF assms(1)])
  qed
  have "0 \<le> (\<Sum>d<dim B. ?f d)"
    by (intro sum_nonneg zero_le_power) (simp add: field_simps)
  moreover have "0 \<le> (\<Sum>d<dim B. ?g d)"
    by (intro sum_nonneg) simp
  ultimately have "range_result t_pow (\<Sum>d<dim B. ?f d, \<Sum>d<dim B. ?g d)
      = Inr \<lparr>lo = (\<Sum>d<dim B. ?f d) powr (2 / of_int t_pow),
              hi = (\<Sum>d<dim B. ?g d) powr (2 / of_int t_pow)\<rparr>"
    by (rule range_result_nonneg[OF assms(1)])
  then show ?thesis
    unfolding RangeDistance_point_def loop using assms(3) by simp
qed

lemma RangeDistance_bound_closed:
  assumes "0 < t_pow" "well_formed B" "well_formed other" "dim other = dim B"
  shows "RangeDistance_bound t_pow B other =
           Inr \<lparr>lo = (\<Sum>d<dim B.
                        (((lo (bounds other ! d) - hi (bounds B ! d)
                            + \<bar>lo (bounds other ! d) - hi (bounds B ! d)\<bar>)
                          + (lo (bounds B ! d) - hi (bounds other ! d)
                            + \<bar>lo (bounds B ! d) - hi (bounds other ! d)\<bar>)) / 2)
                        ^ nat t_pow) powr (2 / of_int t_pow),
                hi = (\<Sum>d<dim B.
                        \<bar>max (hi (bounds other ! d) - lo (bounds B ! d))
                             (hi (bounds B ! d) - lo (bounds other ! d))\<bar>
                        ^ nat t_pow) powr (2 / of_int t_pow)\<rparr>"
proof -
  let ?f = "\<lambda>d. (((lo (bounds other ! d) - hi (bounds B ! d)
                            + \<bar>lo (bounds other ! d) - hi (bounds B ! d)\<bar>)
                          + (lo (bounds B ! d) - hi (bounds other ! d)
                            + \<bar>lo (bounds B ! d) - hi (bounds other ! d)\<bar>)) / 2)
                        ^ nat t_pow"
  let ?g = "\<lambda>d. \<bar>max (hi (bounds other ! d) - lo (bounds B ! d))
                             (hi (bounds B ! d) - lo (bounds other ! d))\<bar> ^ nat t_pow"
  have loop: "for_loop 0 (dim B)
           (\<lambda>d acc.
              let v1 = lo (bounds other ! d) - hi (bounds B ! d);
                  v2 = lo (bounds B ! d) - hi (bounds other ! d)
              in if v1 \<ge> v2
                 then range_step t_pow (if v1 > 0 then v1 else 0) (- v2) acc
                 else range_step t_pow (if v2 > 0 then v2 else 0) (- v1) acc)
           (0, 0) = Inr (\<Sum>d<dim B. ?f d, \<Sum>d<dim B. ?g d)"
  proof (rule for_loop_sum2)
    fix d acc
    assume "d < dim B"
    then have "lo (bounds B ! d) \<le> hi (bounds B ! d)"
      and "lo (bounds other ! d) \<le> hi (bounds other ! d)"
      using assms(2,3,4) by (simp_all add: well_formed_def)
    then show "(let v1 = lo (bounds other ! d) - hi (bounds B ! d);
                  v2 = lo (bounds B ! d) - hi (bounds other ! d)
              in if v1 \<ge> v2
                 then range_step t_pow (if v1 > 0 then v1 else 0) (- v2) acc
                 else range_step t_pow (if v2 > 0 then v2 else 0) (- v1) acc)
              = Inr (fst acc + ?f d, snd acc + ?g d)"
      by (rule range_bound_axis[OF assms(1)])
  qed
  have "0 \<le> (\<Sum>d<dim B. ?f d)"
    by (intro sum_nonneg zero_le_power) (simp add: field_simps)
  moreover have "0 \<le> (\<Sum>d<dim B. ?g d)"
    by (intro sum_nonneg) simp
  ultimately have "range_result t_pow (\<Sum>d<dim B. ?f d, \<Sum>d<dim B. ?g d)
      = Inr \<lparr>lo = (\<Sum>d<dim B. ?f d) powr (2 / of_int t_pow),
              hi = (\<Sum>d<dim B. ?g d) powr (2 / of_int t_pow)\<rparr>"
    by (rule range_result_nonneg[OF assms(1)])
  then show ?thesis
    unfolding RangeDistance_bound_def loop using assms(4) by simp
qed

lemma sum_halved_root:
  assumes "0 < t_pow" "\<And>d. d < n \<Longrightarrow> 0 \<le> c d"
  shows "(\<Sum>d<n. (c d :: real) ^ nat t_pow) powr (2 / of_int t_pow) / 4
         = (\<Sum>d<n. (c d / 2) ^ nat t_pow) powr (2 / of_int t_pow)"
proof -
  have "c d ^ nat t_pow = 2 ^ nat t_pow * (c d / 2) ^ nat t_pow" for d
    by (simp add: power_divide)
  then have "(\<Sum>d<n. c d ^ nat t_pow) = 2 ^ nat t_pow * (\<Sum>d<n. (c d / 2) ^ nat t_pow)"
    by (simp only: sum_distrib_left)
  moreover have "0 \<le> (\<Sum>d<n. (c d / 2) ^ nat t_pow)"
    using assms(2) by (intro sum_nonneg) simp
  ultimately show ?thesis
    using assms(1) by (simp only: scale_root)
qed

lemma MinDistance_point_halved:
  assumes "0 < t_pow" "length x = dim B"
  shows "MinDistance_point t_pow B x =
           Inr ((\<Sum>d<dim B.
                        (((lo (bounds B ! d) - x ! d + \<bar>lo (bounds B ! d) - x ! d\<bar>)
                          + (x ! d - hi (bounds B ! d) + \<bar>x ! d - hi (bounds B ! d)\<bar>)) / 2)
                        ^ nat t_pow) powr (2 / of_int t_pow))"
proof -
  let ?c = "\<lambda>d. (lo (bounds B ! d) - x ! d + \<bar>lo (bounds B ! d) - x ! d\<bar>)
                          + (x ! d - hi (bounds B ! d) + \<bar>x ! d - hi (bounds B ! d)\<bar>)"
  have r: "(\<Sum>d<dim B. ?c d ^ nat t_pow) powr (2 / of_int t_pow) / 4
         = (\<Sum>d<dim B. (?c d / 2) ^ nat t_pow) powr (2 / of_int t_pow)"
    by (rule sum_halved_root[OF assms(1)]) simp
  show ?thesis
    unfolding MinDistance_point_closed[OF assms] Let_def r by (rule refl)
qed

lemma MinDistance_bound_halved:
  assumes "0 < t_pow" "dim other = dim B"
  shows "MinDistance_bound t_pow B other =
           Inr ((\<Sum>d<dim B.
                        (((lo (bounds other ! d) - hi (bounds B ! d)
                            + \<bar>lo (bounds other ! d) - hi (bounds B ! d)\<bar>)
                          + (lo (bounds B ! d) - hi (bounds other ! d)
                            + \<bar>lo (bounds B ! d) - hi (bounds other ! d)\<bar>)) / 2)
                        ^ nat t_pow) powr (2 / of_int t_pow))"
proof -
  let ?c = "\<lambda>d. (lo (bounds other ! d) - hi (bounds B ! d)
                            + \<bar>lo (bounds other ! d) - hi (bounds B ! d)\<bar>)
                          + (lo (bounds B ! d) - hi (bounds other ! d)
                            + \<bar>lo (bounds B ! d) - hi (bounds other ! d)\<bar>)"
  have r: "(\<Sum>d<dim B. ?c d ^ nat t_pow) powr (2 / of_int t_pow) / 4
         = (\<Sum>d<dim B. (?c d / 2) ^ nat t_pow) powr (2 / of_int t_pow)"
    by (rule sum_halved_root[OF assms(1)]) simp
  show ?thesis
    unfolding MinDistance_bound_closed[OF assms] Let_def r by (rule refl)
qed

subsection \<open>Exponent 2 and the squared Euclidean distance\<close>

lemma MinDistance_point_Euclid:
  assumes "length x = dim B"
  shows "MinDistance_point 2 B x =
           Inr (\<Sum>d<dim B.
                  (((lo (bounds B ! d) - x ! d + \<bar>lo (bounds B ! d) - x ! d\<bar>)
                    + (x ! d - hi (bounds B ! d) + \<bar>x ! d - hi (bounds B ! d)\<bar>)) / 2)\<^sup>2)"
proof -
  let ?S = "\<Sum>d<dim B.
                  (((lo (bounds B ! d) - x ! d + \<bar>lo (bounds B ! d) - x ! d\<bar>)
                    + (x ! d - hi (bounds B ! d) + \<bar>x ! d - hi (bounds B ! d)\<bar>)) / 2)\<^sup>2"
  have "0 \<le> ?S"
    by (intro sum_nonneg) simp
  then have "?S powr (2 / of_int 2) = ?S"
    by simp
  then show ?thesis
    using MinDistance_point_halved[of 2 x B] assms by simp
qed

lemma MaxDistance_point_Euclid:
  assumes "length x = dim B"
  shows "MaxDistance_point 2 B x =
           Inr (\<Sum>d<dim B. (max (x ! d - lo (bounds B ! d)) (hi (bounds B ! d) - x ! d))\<^sup>2)"
proof -
  let ?S = "\<Sum>d<dim B. (max (x ! d - lo (bounds B ! d)) (hi (bounds B ! d) - x ! d))\<^sup>2"
  have "0 \<le> ?S"
    by (intro sum_nonneg) simp
  then have "?S powr (2 / of_int 2) = ?S"
    by simp
  then show ?thesis
    using MaxDistance_point_closed[of 2 x B] assms by simp
qed

lemma min_axis:
  fixes x y l h :: real
  assumes "l \<le> y" "y \<le> h"
  shows "(((l - x + \<bar>l - x\<bar>) + (x - h + \<bar>x - h\<bar>)) / 2)\<^sup>2 \<le> (x - y)\<^sup>2"
proof -
  have "\<bar>((l - x + \<bar>l - x\<bar>) + (x - h + \<bar>x - h\<bar>)) / 2\<bar> \<le> \<bar>x - y\<bar>"
    using assms by (auto simp: abs_if)
  then show ?thesis
    by (simp only: abs_le_square_iff)
qed

lemma max_axis:
  fixes x y l h :: real
  assumes "l \<le> y" "y \<le> h"
  shows "(x - y)\<^sup>2 \<le> (max (x - l) (h - x))\<^sup>2"
proof -
  have "\<bar>x - y\<bar> \<le> \<bar>max (x - l) (h - x)\<bar>"
    using assms by (auto simp: abs_if max_def)
  then show ?thesis
    by (simp only: abs_le_square_iff)
qed

lemma nearest_axis:
  fixes x l h :: real
  assumes "l \<le> h"
  shows "(x - max l (min h x))\<^sup>2 = (((l - x + \<bar>l - x\<bar>) + (x - h + \<bar>x - h\<bar>)) / 2)\<^sup>2"
proof -
  consider "x < l" | "l \<le> x" "x \<le> h" | "h < x"
    by linarith
  then show ?thesis
  proof cases
    case 1
    then have "max l (min h x) = l" "\<bar>l - x\<bar> = l - x" "\<bar>x - h\<bar> = h - x"
      using assms by simp_all
    then have "((l - x + \<bar>l - x\<bar>) + (x - h + \<bar>x - h\<bar>)) / 2 = l - x"
      by simp
    then show ?thesis
      using \<open>max l (min h x) = l\<close> by (simp only: power2_commute[of x l])
  next
    case 2
    then have "max l (min h x) = x" "\<bar>l - x\<bar> = x - l" "\<bar>x - h\<bar> = h - x"
      by simp_all
    then show ?thesis
      by simp
  next
    case 3
    then have "max l (min h x) = h" "\<bar>l - x\<bar> = x - l" "\<bar>x - h\<bar> = x - h"
      using assms by simp_all
    then have "((l - x + \<bar>l - x\<bar>) + (x - h + \<bar>x - h\<bar>)) / 2 = x - h"
      by simp
    then show ?thesis
      using \<open>max l (min h x) = h\<close> by (simp only:)
  qed
qed

lemma nearest_nth: "d < dim B \<Longrightarrow> nearest B x ! d = max (lo (bounds B ! d)) (min (hi (bounds B ! d)) (x ! d))"
  by (simp add: nearest_def)

lemma nearest_inside: "well_formed B \<Longrightarrow> inside B (nearest B x)"
  by (auto simp: inside_def nearest_nth well_formed_def) (simp add: nearest_def)

lemma sqdist_nearest:
  assumes "well_formed B"
  shows "sqdist (dim B) x (nearest B x) =
           (\<Sum>d<dim B.
                  (((lo (bounds B ! d) - x ! d + \<bar>lo (bounds B ! d) - x ! d\<bar>)
                    + (x ! d - hi (bounds B ! d) + \<bar>x ! d - hi (bounds B ! d)\<bar>)) / 2)\<^sup>2)"
  unfolding sqdist_def
proof (rule sum.cong[OF refl])
  fix d assume "d \<in> {..<dim B}"
  then have d: "d < dim B" by simp
  then have "lo (bounds B ! d) \<le> hi (bounds B ! d)"
    using assms by (simp add: well_formed_def)
  then show "(x ! d - nearest B x ! d)\<^sup>2 =
       (((lo (bounds B ! d) - x ! d + \<bar>lo (bounds B ! d) - x ! d\<bar>)
                    + (x ! d - hi (bounds B ! d) + \<bar>x ! d - hi (bounds B ! d)\<bar>)) / 2)\<^sup>2"
    unfolding nearest_nth[OF d] by (rule nearest_axis)
qed

lemma sqdist_lower:
  assumes "inside B y"
  shows "(\<Sum>d<dim B.
                  (((lo (bounds B ! d) - x ! d + \<bar>lo (bounds B ! d) - x ! d\<bar>)
                    + (x ! d - hi (bounds B ! d) + \<bar>x ! d - hi (bounds B ! d)\<bar>)) / 2)\<^sup>2)
         \<le> sqdist (dim B) x y"
  unfolding sqdist_def
proof (rule sum_mono)
  fix d assume "d \<in> {..<dim B}"
  then have "lo (bounds B ! d) \<le> y ! d" "y ! d \<le> hi (bounds B ! d)"
    using assms by (simp_all add: inside_def)
  then show "(((lo (bounds B ! d) - x ! d + \<bar>lo (bounds B ! d) - x ! d\<bar>)
                    + (x ! d - hi (bounds B ! d) + \<bar>x ! d - hi (bounds B ! d)\<bar>)) / 2)\<^sup>2
             \<le> (x ! d - y ! d)\<^sup>2"
    by (rule min_axis)
qed

lemma sqdist_upper:
  assumes "inside B y"
  shows "sqdist (dim B) x y
         \<le> (\<Sum>d<dim B. (max (x ! d - lo (bounds B ! d)) (hi (bounds B ! d) - x ! d))\<^sup>2)"
  unfolding sqdist_def
proof (rule sum_mono)
  fix d assume "d \<in> {..<dim B}"
  then have "lo (bounds B ! d) \<le> y ! d" "y ! d \<le> hi (bounds B ! d)"
    using assms by (simp_all add: inside_def)
  then show "(x ! d - y ! d)\<^sup>2 \<le> (max (x ! d - lo (bounds B ! d)) (hi (bounds B ! d) - x ! d))\<^sup>2"
    by (rule max_axis)
qed

subsection \<open>The union loops\<close>

lemma for_loop_update_from:
  assumes "\<And>k bs. body k bs = Inr (bs[k := F k (bs ! k)])"
  shows "\<exists>bs'. for_loop i n body bs = Inr bs' \<and> length bs' = length bs
           \<and> (\<forall>d<length bs. bs' ! d = (if i \<le> d \<and> d < n then F d (bs ! d) else bs ! d))"
  using assms
proof (induction i n body bs rule: for_loop.induct)
  case (1 i n body bs)
  show ?case
  proof (cases "i < n")
    case True
    let ?bs1 = "bs[i := F i (bs ! i)]"
    have b: "body i bs = Inr ?bs1"
      by (rule "1.prems")
    obtain bs' where r: "for_loop (Suc i) n body ?bs1 = Inr bs'" "length bs' = length ?bs1"
      and nth: "\<forall>d<length ?bs1. bs' ! d = (if Suc i \<le> d \<and> d < n then F d (?bs1 ! d) else ?bs1 ! d)"
      using "1.IH"[OF True, of ?bs1] "1.prems" by blast
    have "for_loop i n body bs = Inr bs'"
      using True b r(1) by (simp add: for_loop_step)
    moreover have "length bs' = length bs"
      using r(2) by simp
    moreover have "bs' ! d = (if i \<le> d \<and> d < n then F d (bs ! d) else bs ! d)"
      if "d < length bs" for d
    proof (cases "d = i")
      case True
      then show ?thesis
        using nth that \<open>i < n\<close> by simp
    next
      case False
      then show ?thesis
        using nth that by auto
    qed
    ultimately show ?thesis
      by blast
  next
    case False
    then show ?thesis
      by (auto simp: for_loop_done)
  qed
qed

lemma for_loop_update:
  assumes "\<And>k bs. body k bs = Inr (bs[k := F k (bs ! k)])" "length bs = n"
  shows "\<exists>bs'. for_loop 0 n body bs = Inr bs' \<and> length bs' = n
           \<and> (\<forall>d<n. bs' ! d = F d (bs ! d))"
  using for_loop_update_from[of body F 0 n bs, OF assms(1)] assms(2) by auto

lemma union_point_result:
  assumes "valid B" "length x = dim B"
  shows "\<exists>B'. union_point B x = Inr B' \<and> dim B' = dim B \<and> valid B'
           \<and> (\<forall>d<dim B. bounds B' ! d = Range_union_scalar (bounds B ! d) (x ! d))"
proof -
  have len: "length (bounds B) = dim B"
    using assms(1) by (simp add: valid_def)
  have "\<exists>bs'. for_loop 0 (dim B)
           (\<lambda>i bs. Inr (bs[i := Range_union_scalar (bs ! i) (x ! i)]))
           (bounds B) = Inr bs' \<and> length bs' = dim B
         \<and> (\<forall>d<dim B. bs' ! d = Range_union_scalar (bounds B ! d) (x ! d))"
    by (rule for_loop_update[where F = "\<lambda>i r. Range_union_scalar r (x ! i)"]) (simp_all add: len)
  then obtain bs' where "for_loop 0 (dim B)
           (\<lambda>i bs. Inr (bs[i := Range_union_scalar (bs ! i) (x ! i)]))
           (bounds B) = Inr bs'" "length bs' = dim B"
    "\<forall>d<dim B. bs' ! d = Range_union_scalar (bounds B ! d) (x ! d)"
    by blast
  then show ?thesis
    using assms(2) by (simp add: union_point_def valid_def)
qed

lemma union_bound_result:
  assumes "valid B" "dim other = dim B"
  shows "\<exists>B'. union_bound B other = Inr B' \<and> dim B' = dim B \<and> valid B'
           \<and> (\<forall>d<dim B. bounds B' ! d = Range_union (bounds B ! d) (bounds other ! d))"
proof -
  have len: "length (bounds B) = dim B"
    using assms(1) by (simp add: valid_def)
  have "\<exists>bs'. for_loop 0 (dim B)
           (\<lambda>i bs. Inr (bs[i := Range_union (bs ! i) (bounds other ! i)]))
           (bounds B) = Inr bs' \<and> length bs' = dim B
         \<and> (\<forall>d<dim B. bs' ! d = Range_union (bounds B ! d) (bounds other ! d))"
    by (rule for_loop_update[where F = "\<lambda>i r. Range_union r (bounds other ! i)"]) (simp_all add: len)
  then obtain bs' where "for_loop 0 (dim B)
           (\<lambda>i bs. Inr (bs[i := Range_union (bs ! i) (bounds other ! i)]))
           (bounds B) = Inr bs'" "length bs' = dim B"
    "\<forall>d<dim B. bs' ! d = Range_union (bounds B ! d) (bounds other ! d)"
    by blast
  then show ?thesis
    using assms(2) by (simp add: union_bound_def valid_def)
qed

lemma Range_union_scalar_superset:
  "Range_Contains r t \<Longrightarrow> Range_Contains (Range_union_scalar r x) t"
  by (auto simp: Range_Contains_def Range_union_scalar_def)

lemma Range_union_scalar_absorbs: "Range_Contains (Range_union_scalar r x) x"
  by (auto simp: Range_Contains_def Range_union_scalar_def)

lemma Range_union_superset:
  "Range_Contains r t \<Longrightarrow> Range_Contains (Range_union r s) t"
  by (auto simp: Range_Contains_def Range_union_def)

lemma Range_union_absorbs:
  "Range_Contains s t \<Longrightarrow> Range_Contains (Range_union r s) t"
  by (auto simp: Range_Contains_def Range_union_def)

lemma union_point_example:
  "union_point example_box [15, 5]
     = Inr \<lparr>dim = 2, bounds = [\<lparr>lo = 0, hi = 15\<rparr>, \<lparr>lo = 0, hi = 10\<rparr>]\<rparr>"
  by (simp add: union_point_def example_box_def for_loop.simps Range_union_scalar_def)

lemma union_bound_example:
  "union_bound example_box example_other
     = Inr \<lparr>dim = 2, bounds = [\<lparr>lo = 0, hi = 30\<rparr>, \<lparr>lo = 0, hi = 10\<rparr>]\<rparr>"
  by (simp add: union_bound_def example_box_def example_other_def for_loop.simps Range_union_def)

subsection \<open>\<open>MinDistance\<close> to a point\<close>

text \<open>
  Claim C1. For a metric exponent \<open>t_pow > 0\<close>, a bound \<open>B\<close> and a point \<open>x\<close> with
  exactly \<open>dim\<close> coordinates, \<open>MinDistance(B, x)\<close> is
  \<open>(\<Sum>d. ((lower + |lower|) + (higher + |higher|))^t_pow)^(2/t_pow) / 4\<close> with
  \<open>lower = bounds[d].lo - x[d]\<close> and \<open>higher = x[d] - bounds[d].hi\<close>; it is \<open>0\<close> when
  \<open>x\<close> lies in \<open>B\<close> on every axis; and for exponent 2, the bound \<open>[0,10] x [0,10]\<close> and
  the point \<open>(15, 5)\<close> it is exactly \<open>25\<close>. The formula does not need the intervals
  to be well-formed.
\<close>

theorem MinDistance_point_formula:
  assumes "0 < t_pow" and "valid B" and "length x = dim B"
  shows "MinDistance_point t_pow B x =
           Inr ((\<Sum>d<dim B.
                   (let lower = lo (bounds B ! d) - x ! d;
                        higher = x ! d - hi (bounds B ! d)
                    in ((lower + \<bar>lower\<bar>) + (higher + \<bar>higher\<bar>)) ^ nat t_pow))
                powr (2 / of_int t_pow) / 4)
         \<and> (inside B x \<longrightarrow> MinDistance_point t_pow B x = Inr 0)
         \<and> MinDistance_point 2 example_box [15, 5] = Inr 25"
proof (intro conjI impI)
  show "MinDistance_point 2 example_box [15, 5] = Inr 25"
    by (simp add: MinDistance_point_closed example_box_def numeral_2_eq_2)
next
  assume "inside B x"
  then show "MinDistance_point t_pow B x = Inr 0"
    using assms(1) by (simp only: MinDistance_point_inside)
qed (rule MinDistance_point_closed[OF assms(1,3)])

theorem MinDistance_point_formula_witness:
  "valid example_box \<and> inside example_box [5, 5]
   \<and> MinDistance_point 2 example_box [15, 5] = Inr 25
   \<and> MinDistance_point 2 example_box [5, 5] = Inr 0"
proof -
  have v: "valid example_box"
    by (simp add: valid_def example_box_def)
  have i: "inside example_box [5, 5]"
    by (simp add: inside_def example_box_def less_2_cases_iff)
  have d: "dim example_box = 2"
    by (simp add: example_box_def)
  have "MinDistance_point 2 example_box [15, 5] = Inr 25"
    using MinDistance_point_formula[of 2 example_box "[15, 5]", THEN conjunct1] v d
    by (simp add: example_box_def numeral_2_eq_2)
  moreover have "MinDistance_point 2 example_box [5, 5] = Inr 0"
    using MinDistance_point_formula[of 2 example_box "[5, 5]", THEN conjunct2, THEN conjunct1] v i d
    by simp
  ultimately show ?thesis
    using v i by simp
qed

subsection \<open>\<open>MaxDistance\<close> to a point\<close>

text \<open>
  Claim C3. For a metric exponent \<open>t_pow > 0\<close>, a bound \<open>B\<close> and a point \<open>x\<close> with
  exactly \<open>dim\<close> coordinates, the unfiltered \<open>MaxDistance(B, x)\<close> is
  \<open>(\<Sum>d. |max(x[d] - lo, hi - x[d])|^t_pow)^(2/t_pow)\<close>, with no division by 4; for
  exponent 2, the bound \<open>[0,10] x [0,10]\<close> and the point \<open>(15, 5)\<close> it is exactly \<open>250\<close>.
\<close>

theorem MaxDistance_point_formula:
  assumes "0 < t_pow" and "valid B" and "length x = dim B"
  shows "MaxDistance_point t_pow B x =
           Inr ((\<Sum>d<dim B.
                   \<bar>max (x ! d - lo (bounds B ! d)) (hi (bounds B ! d) - x ! d)\<bar> ^ nat t_pow)
                powr (2 / of_int t_pow))
         \<and> MaxDistance_point 2 example_box [15, 5] = Inr 250"
proof (intro conjI)
  show "MaxDistance_point 2 example_box [15, 5] = Inr 250"
    by (simp add: MaxDistance_point_closed example_box_def numeral_2_eq_2)
qed (simp add: MaxDistance_point_closed assms)

theorem MaxDistance_point_formula_witness:
  "valid example_box \<and> MaxDistance_point 2 example_box [15, 5] = Inr 250"
proof -
  have v: "valid example_box" and d: "dim example_box = 2"
    by (simp_all add: valid_def example_box_def)
  show ?thesis
    using MaxDistance_point_formula[of 2 example_box "[15, 5]", THEN conjunct1] v d
    by (simp add: example_box_def numeral_2_eq_2)
qed

subsection \<open>The filtered \<open>MaxDistance\<close> overloads\<close>

text \<open>
  Claim C4. For a metric exponent \<open>t_pow > 0\<close>, a bound \<open>B\<close>, an operand (a point with
  \<open>dim\<close> coordinates, or a bound of equal \<open>dim\<close>) and a sequence of axis indices all
  smaller than \<open>dim\<close>, the filtered \<open>MaxDistance\<close> overloads add up, over the selected
  axes, \<open>(|higher - lower| + higher + lower)^t_pow\<close>, where \<open>lower = |point[i] - lo|\<close>,
  \<open>higher = |point[i] - hi|\<close> in the point form and \<open>lower = |other.hi - this.lo|\<close>,
  \<open>higher = |other.lo - this.hi|\<close> in the bound form, and return
  \<open>sum^(2/t_pow) / 4\<close>.
\<close>

theorem MaxDistance_indices_formula:
  assumes "0 < t_pow" and "valid B" and "\<forall>i\<in>set indices. i < dim B"
  shows "(length x = dim B \<longrightarrow>
            MaxDistance_point_indices t_pow B x indices =
              Inr ((\<Sum>i\<leftarrow>indices.
                      (let lower = \<bar>x ! i - lo (bounds B ! i)\<bar>;
                           higher = \<bar>x ! i - hi (bounds B ! i)\<bar>
                       in (\<bar>higher - lower\<bar> + higher + lower) ^ nat t_pow))
                   powr (2 / of_int t_pow) / 4))
       \<and> (valid other \<and> dim other = dim B \<longrightarrow>
            MaxDistance_bound_indices t_pow B other indices =
              Inr ((\<Sum>i\<leftarrow>indices.
                      (let lower = \<bar>hi (bounds other ! i) - lo (bounds B ! i)\<bar>;
                           higher = \<bar>lo (bounds other ! i) - hi (bounds B ! i)\<bar>
                       in (\<bar>higher - lower\<bar> + higher + lower) ^ nat t_pow))
                   powr (2 / of_int t_pow) / 4))"
proof (intro conjI impI)
  assume "length x = dim B"
  then show "MaxDistance_point_indices t_pow B x indices =
              Inr ((\<Sum>i\<leftarrow>indices.
                      (let lower = \<bar>x ! i - lo (bounds B ! i)\<bar>;
                           higher = \<bar>x ! i - hi (bounds B ! i)\<bar>
                       in (\<bar>higher - lower\<bar> + higher + lower) ^ nat t_pow))
                   powr (2 / of_int t_pow) / 4)"
    by (rule MaxDistance_point_indices_closed[OF assms(1) _ assms(3)])
next
  assume "valid other \<and> dim other = dim B"
  then have "dim other = dim B" ..
  then show "MaxDistance_bound_indices t_pow B other indices =
              Inr ((\<Sum>i\<leftarrow>indices.
                      (let lower = \<bar>hi (bounds other ! i) - lo (bounds B ! i)\<bar>;
                           higher = \<bar>lo (bounds other ! i) - hi (bounds B ! i)\<bar>
                       in (\<bar>higher - lower\<bar> + higher + lower) ^ nat t_pow))
                   powr (2 / of_int t_pow) / 4)"
    by (rule MaxDistance_bound_indices_closed[OF assms(1) _ assms(3)])
qed

theorem MaxDistance_indices_formula_witness:
  "valid example_box \<and> valid example_other \<and> dim example_other = dim example_box
   \<and> MaxDistance_point_indices 2 example_box [15, 5] [0] = Inr 225
   \<and> MaxDistance_bound_indices 2 example_box example_other [0] = Inr 900"
proof -
  have v: "valid example_box" "valid example_other"
    and d: "dim example_box = 2" "dim example_other = 2"
    by (simp_all add: valid_def example_box_def example_other_def)
  have "MaxDistance_point_indices 2 example_box [15, 5] [0] = Inr 225"
    using MaxDistance_indices_formula[of 2 example_box "[0]" "[15, 5]", THEN conjunct1] v d
    by (simp add: example_box_def)
  moreover have "MaxDistance_bound_indices 2 example_box example_other [0] = Inr 900"
    using MaxDistance_indices_formula[of 2 example_box "[0]" _ example_other, THEN conjunct2] v d
    by (simp add: example_box_def example_other_def)
  ultimately show ?thesis
    using v d by simp
qed

subsection \<open>Symmetry of the bound-to-bound distances\<close>

text \<open>
  Claim C10. Bound-to-bound \<open>MinDistance\<close> and \<open>MaxDistance\<close> are symmetric:
  \<open>a.MinDistance(b) = b.MinDistance(a)\<close> and \<open>a.MaxDistance(b) = b.MaxDistance(a)\<close>.
  When the two bounds have equal dimensionality and the exponent is positive, both are
  proper values (no call ends in an error).
\<close>

theorem bound_distance_symmetric:
  "MinDistance_bound t_pow a b = MinDistance_bound t_pow b a
   \<and> MaxDistance_bound t_pow a b = MaxDistance_bound t_pow b a
   \<and> (0 < t_pow \<and> dim a = dim b \<longrightarrow>
        (\<exists>m M. MinDistance_bound t_pow a b = Inr m \<and> MaxDistance_bound t_pow a b = Inr M))"
proof (intro conjI impI)
  show "MinDistance_bound t_pow a b = MinDistance_bound t_pow b a"
    by (simp add: MinDistance_bound_def Let_def add.commute)
  show "MaxDistance_bound t_pow a b = MaxDistance_bound t_pow b a"
    by (simp add: MaxDistance_bound_def Let_def max.commute)
  assume "0 < t_pow \<and> dim a = dim b"
  then have "0 < t_pow" "dim b = dim a"
    by simp_all
  then show "\<exists>m M. MinDistance_bound t_pow a b = Inr m \<and> MaxDistance_bound t_pow a b = Inr M"
    using MinDistance_bound_closed[of t_pow b a] MaxDistance_bound_closed[of t_pow b a] by blast
qed

theorem bound_distance_symmetric_witness:
  "dim example_box = dim example_other
   \<and> MinDistance_bound 2 example_box example_other = Inr 100
   \<and> MinDistance_bound 2 example_other example_box = Inr 100
   \<and> MaxDistance_bound 2 example_box example_other = Inr 1000
   \<and> MaxDistance_bound 2 example_other example_box = Inr 1000"
proof -
  have d: "dim example_box = 2" "dim example_other = 2"
    by (simp_all add: example_box_def example_other_def)
  have m: "MinDistance_bound 2 example_box example_other = Inr 100"
    by (simp add: MinDistance_bound_closed d numeral_2_eq_2) (simp add: example_box_def example_other_def)
  have M: "MaxDistance_bound 2 example_box example_other = Inr 1000"
    by (simp add: MaxDistance_bound_closed d numeral_2_eq_2) (simp add: example_box_def example_other_def)
  show ?thesis
    using bound_distance_symmetric[of 2 example_box example_other] m M d by simp
qed

subsection \<open>Degenerate inputs\<close>

text \<open>
  Claim C7. Degenerate but valid inputs give a zero result and no failure: for a
  metric exponent \<open>t_pow > 0\<close>, every filtered distance overload returns \<open>0\<close> on the
  empty index sequence, and every distance overload returns \<open>0\<close> (\<open>RangeDistance\<close>:
  the interval \<open>[0, 0]\<close>) when the bound has \<open>dim = 0\<close> and the operand is empty too.
\<close>

theorem degenerate_inputs_zero:
  assumes "0 < t_pow"
  shows "(length x = dim B \<longrightarrow>
            MinDistance_point_indices t_pow B x [] = Inr 0
          \<and> MaxDistance_point_indices t_pow B x [] = Inr 0)
       \<and> (dim other = dim B \<longrightarrow>
            MinDistance_bound_indices t_pow B other [] = Inr 0
          \<and> MaxDistance_bound_indices t_pow B other [] = Inr 0)
       \<and> (dim B = 0 \<and> dim other = 0 \<longrightarrow>
            MinDistance_point t_pow B [] = Inr 0
          \<and> MinDistance_bound t_pow B other = Inr 0
          \<and> MaxDistance_point t_pow B [] = Inr 0
          \<and> MaxDistance_bound t_pow B other = Inr 0
          \<and> RangeDistance_point t_pow B [] = Inr \<lparr>lo = 0, hi = 0\<rparr>
          \<and> RangeDistance_bound t_pow B other = Inr \<lparr>lo = 0, hi = 0\<rparr>)"
proof (intro conjI impI)
  assume "length x = dim B"
  then show "MinDistance_point_indices t_pow B x [] = Inr 0"
    and "MaxDistance_point_indices t_pow B x [] = Inr 0"
    using assms
    by (simp_all add: MinDistance_point_indices_def MaxDistance_point_indices_def
          for_loop_empty root_pow_zero)
next
  assume "dim other = dim B"
  then show "MinDistance_bound_indices t_pow B other [] = Inr 0"
    and "MaxDistance_bound_indices t_pow B other [] = Inr 0"
    using assms
    by (simp_all add: MinDistance_bound_indices_def MaxDistance_bound_indices_def
          for_loop_empty root_pow_zero)
next
  assume z: "dim B = 0 \<and> dim other = 0"
  then show "MinDistance_point t_pow B [] = Inr 0"
    and "MaxDistance_point t_pow B [] = Inr 0"
    and "MinDistance_bound t_pow B other = Inr 0"
    and "MaxDistance_bound t_pow B other = Inr 0"
    using assms
    by (simp_all add: MinDistance_point_def MaxDistance_point_def MinDistance_bound_def
          MaxDistance_bound_def for_loop_empty root_pow_zero)
  from z show "RangeDistance_point t_pow B [] = Inr \<lparr>lo = 0, hi = 0\<rparr>"
    and "RangeDistance_bound t_pow B other = Inr \<lparr>lo = 0, hi = 0\<rparr>"
    using assms
    by (simp_all add: RangeDistance_point_def RangeDistance_bound_def for_loop_empty
          range_result_zero)
qed

theorem degenerate_inputs_zero_witness:
  "MinDistance_point_indices 2 example_box [15, 5] [] = Inr 0
   \<and> MaxDistance_point_indices 2 example_box [15, 5] [] = Inr 0
   \<and> MinDistance_bound_indices 2 example_box example_other [] = Inr 0
   \<and> MaxDistance_bound_indices 2 example_box example_other [] = Inr 0
   \<and> MinDistance_point 2 HRectBound_empty [] = Inr 0
   \<and> MinDistance_bound 2 HRectBound_empty HRectBound_empty = Inr 0
   \<and> MaxDistance_point 2 HRectBound_empty [] = Inr 0
   \<and> MaxDistance_bound 2 HRectBound_empty HRectBound_empty = Inr 0
   \<and> RangeDistance_point 2 HRectBound_empty [] = Inr \<lparr>lo = 0, hi = 0\<rparr>
   \<and> RangeDistance_bound 2 HRectBound_empty HRectBound_empty = Inr \<lparr>lo = 0, hi = 0\<rparr>"
proof -
  have d: "dim example_box = 2" "dim example_other = 2" "dim HRectBound_empty = 0"
    by (simp_all add: example_box_def example_other_def HRectBound_empty_def)
  show ?thesis
    using degenerate_inputs_zero[of 2 "[15, 5]" example_box example_other]
      degenerate_inputs_zero[of 2 "[]" HRectBound_empty HRectBound_empty] d
    by simp
qed

subsection \<open>Filtered and unfiltered \<open>MaxDistance\<close> on all axes\<close>

text \<open>
  Claim C9. For a metric exponent \<open>t_pow > 0\<close> and bounds with well-formed axis
  intervals, a filtered \<open>MaxDistance\<close> overload called with an index sequence that
  lists every axis \<open>0..dim-1\<close> exactly once returns the same value as the unfiltered
  overload on the same operands: the factor 2 of the filtered per-axis term is
  cancelled by the division by 4.
\<close>

theorem MaxDistance_indices_all_axes:
  assumes "0 < t_pow" and "valid B" and "well_formed B"
    and "distinct indices" and "set indices = {..<dim B}"
  shows "(length x = dim B \<longrightarrow>
            (\<exists>v. MaxDistance_point t_pow B x = Inr v
                \<and> MaxDistance_point_indices t_pow B x indices = Inr v))
       \<and> (valid other \<and> well_formed other \<and> dim other = dim B \<longrightarrow>
            (\<exists>v. MaxDistance_bound t_pow B other = Inr v
                \<and> MaxDistance_bound_indices t_pow B other indices = Inr v))"
proof (intro conjI impI)
  assume len: "length x = dim B"
  then have "MaxDistance_point_indices t_pow B x indices = MaxDistance_point t_pow B x"
    using assms by (intro MaxDistance_point_indices_all)
  then show "\<exists>v. MaxDistance_point t_pow B x = Inr v
                \<and> MaxDistance_point_indices t_pow B x indices = Inr v"
    using MaxDistance_point_closed[OF assms(1) len] by simp
next
  assume o: "valid other \<and> well_formed other \<and> dim other = dim B"
  then have "MaxDistance_bound_indices t_pow B other indices = MaxDistance_bound t_pow B other"
    using assms by (intro MaxDistance_bound_indices_all) simp_all
  then show "\<exists>v. MaxDistance_bound t_pow B other = Inr v
                \<and> MaxDistance_bound_indices t_pow B other indices = Inr v"
    using MaxDistance_bound_closed[OF assms(1), of other B] o by simp
qed

theorem MaxDistance_indices_all_axes_witness:
  "valid example_box \<and> well_formed example_box \<and> distinct [1, 0::nat]
   \<and> set [1, 0] = {..<dim example_box}
   \<and> valid example_other \<and> well_formed example_other
   \<and> MaxDistance_point 2 example_box [15, 5] = Inr 250
   \<and> MaxDistance_point_indices 2 example_box [15, 5] [1, 0] = Inr 250
   \<and> MaxDistance_bound 2 example_box example_other = Inr 1000
   \<and> MaxDistance_bound_indices 2 example_box example_other [1, 0] = Inr 1000"
proof -
  have v: "valid example_box" "valid example_other"
    and d: "dim example_box = 2" "dim example_other = 2"
    by (simp_all add: valid_def example_box_def example_other_def)
  have s: "set [1, 0] = {..<dim example_box}"
    unfolding d by auto
  have p: "MaxDistance_point 2 example_box [15, 5] = Inr 250"
    by (simp add: MaxDistance_point_closed d numeral_2_eq_2) (simp add: example_box_def)
  have b: "MaxDistance_bound 2 example_box example_other = Inr 1000"
    by (simp add: MaxDistance_bound_closed d numeral_2_eq_2)
      (simp add: example_box_def example_other_def)
  show ?thesis
    using MaxDistance_indices_all_axes[of 2 example_box "[1, 0]" "[15, 5]" example_other]
      v d s p b well_formed_example_box well_formed_example_other
    by simp
qed

subsection \<open>\<open>RangeDistance\<close> against the single-value overloads\<close>

text \<open>
  Claim C5, as amended. For a metric exponent \<open>t_pow > 0\<close>: for every pair of bounds
  of equal dimensionality with well-formed axis intervals, and for every bound with
  well-formed axis intervals and point of matching length, \<open>RangeDistance\<close> returns
  exactly the pair of the values that the unfiltered \<open>MinDistance\<close> and \<open>MaxDistance\<close>
  overloads return on the same arguments, in exact real arithmetic. The claim as
  written asks no well-formedness of the bound in the point form; the branches of
  \<open>RangeDistance\<close> rely on it (\<open>One of v1 or v2 (or both) is negative\<close>), and the
  counterexample after the witness shows that the point form fails without it.
\<close>

theorem RangeDistance_consistent:
  assumes "0 < t_pow" and "valid B" and "well_formed B"
  shows "(length x = dim B \<longrightarrow>
            (\<exists>m M. MinDistance_point t_pow B x = Inr m
                  \<and> MaxDistance_point t_pow B x = Inr M
                  \<and> RangeDistance_point t_pow B x = Inr \<lparr>lo = m, hi = M\<rparr>))
       \<and> (valid other \<and> well_formed other \<and> dim other = dim B \<longrightarrow>
            (\<exists>m M. MinDistance_bound t_pow B other = Inr m
                  \<and> MaxDistance_bound t_pow B other = Inr M
                  \<and> RangeDistance_bound t_pow B other = Inr \<lparr>lo = m, hi = M\<rparr>))"
proof (intro conjI impI)
  assume len: "length x = dim B"
  show "\<exists>m M. MinDistance_point t_pow B x = Inr m
                  \<and> MaxDistance_point t_pow B x = Inr M
                  \<and> RangeDistance_point t_pow B x = Inr \<lparr>lo = m, hi = M\<rparr>"
    unfolding MinDistance_point_halved[OF assms(1) len] MaxDistance_point_closed[OF assms(1) len]
      RangeDistance_point_closed[OF assms(1,3) len]
    by blast
next
  assume o: "valid other \<and> well_formed other \<and> dim other = dim B"
  then have wf: "well_formed other" and d: "dim other = dim B"
    by simp_all
  show "\<exists>m M. MinDistance_bound t_pow B other = Inr m
                  \<and> MaxDistance_bound t_pow B other = Inr M
                  \<and> RangeDistance_bound t_pow B other = Inr \<lparr>lo = m, hi = M\<rparr>"
    unfolding MinDistance_bound_halved[OF assms(1) d] MaxDistance_bound_closed[OF assms(1) d]
      RangeDistance_bound_closed[OF assms(1,3) wf d]
    by blast
qed

theorem RangeDistance_consistent_witness:
  "valid example_box \<and> well_formed example_box
   \<and> valid example_other \<and> well_formed example_other
   \<and> MinDistance_point 2 example_box [15, 5] = Inr 25
   \<and> MaxDistance_point 2 example_box [15, 5] = Inr 250
   \<and> RangeDistance_point 2 example_box [15, 5] = Inr \<lparr>lo = 25, hi = 250\<rparr>
   \<and> MinDistance_bound 2 example_box example_other = Inr 100
   \<and> MaxDistance_bound 2 example_box example_other = Inr 1000
   \<and> RangeDistance_bound 2 example_box example_other = Inr \<lparr>lo = 100, hi = 1000\<rparr>"
proof -
  have v: "valid example_box" "valid example_other"
    and d: "dim example_box = 2" "dim example_other = 2"
    by (simp_all add: valid_def example_box_def example_other_def)
  have p: "MinDistance_point 2 example_box [15, 5] = Inr 25"
    "MaxDistance_point 2 example_box [15, 5] = Inr 250"
    by (simp add: MinDistance_point_closed d numeral_2_eq_2, simp add: example_box_def,
        simp add: MaxDistance_point_closed d numeral_2_eq_2, simp add: example_box_def)
  have b: "MinDistance_bound 2 example_box example_other = Inr 100"
    "MaxDistance_bound 2 example_box example_other = Inr 1000"
    by (simp add: MinDistance_bound_closed d numeral_2_eq_2,
        simp add: example_box_def example_other_def,
        simp add: MaxDistance_bound_closed d numeral_2_eq_2,
        simp add: example_box_def example_other_def)
  show ?thesis
    using RangeDistance_consistent[of 2 example_box "[15, 5]" example_other]
      v d p b well_formed_example_box well_formed_example_other
    by simp
qed

text \<open>
  Without well-formedness the point form fails. On the one-dimensional bound with
  \<open>lo = 10\<close> and \<open>hi = 0\<close> and the point \<open>5\<close>, of matching length, \<open>v1 = 5 >= 0\<close>, so
  \<open>RangeDistance\<close> takes \<open>vLo = v1 = 5\<close> and \<open>vHi = -v2 = -5\<close> and returns \<open>[25, 25]\<close>;
  in \<open>MinDistance\<close> both \<open>lower = 5\<close> and \<open>higher = 5\<close> are positive, the per-axis term
  is \<open>20\<close> and the result is \<open>400 / 4 = 100\<close>. The pair returned is not
  \<open>(MinDistance, MaxDistance) = (100, 25)\<close>.
\<close>

theorem RangeDistance_consistent_counterexample:
  "valid \<lparr>dim = 1, bounds = [\<lparr>lo = 10, hi = 0\<rparr>]\<rparr>
   \<and> length [5 :: real] = dim \<lparr>dim = 1, bounds = [\<lparr>lo = 10, hi = 0\<rparr>]\<rparr>
   \<and> MinDistance_point 2 \<lparr>dim = 1, bounds = [\<lparr>lo = 10, hi = 0\<rparr>]\<rparr> [5] = Inr 100
   \<and> MaxDistance_point 2 \<lparr>dim = 1, bounds = [\<lparr>lo = 10, hi = 0\<rparr>]\<rparr> [5] = Inr 25
   \<and> RangeDistance_point 2 \<lparr>dim = 1, bounds = [\<lparr>lo = 10, hi = 0\<rparr>]\<rparr> [5]
         = Inr \<lparr>lo = 25, hi = 25\<rparr>
   \<and> RangeDistance_point 2 \<lparr>dim = 1, bounds = [\<lparr>lo = 10, hi = 0\<rparr>]\<rparr> [5]
         \<noteq> Inr \<lparr>lo = 100, hi = 25\<rparr>"
  by code_simp

subsection \<open>The Euclidean case: the distances bracket the true squared distance\<close>

text \<open>
  Claim C2. For metric exponent 2, a bound \<open>B\<close> with well-formed axis intervals and a
  point \<open>x\<close> of matching length: there is a nearest point \<open>n\<close> of \<open>B\<close> (no point of \<open>B\<close>
  is closer to \<open>x\<close>), and \<open>MinDistance(B, x)\<close> is at most the squared Euclidean
  distance from \<open>x\<close> to \<open>n\<close>, which is at most \<open>MaxDistance(B, x)\<close>. Moreover, for every
  point \<open>y\<close> of \<open>B\<close>, \<open>MinDistance(B, x) \<le> ||x - y||^2 \<le> MaxDistance(B, x)\<close>.
\<close>

theorem Euclidean_distance_bounds:
  assumes "valid B" and "well_formed B" and "length x = dim B"
  shows "\<exists>m M n. MinDistance_point 2 B x = Inr m \<and> MaxDistance_point 2 B x = Inr M
           \<and> inside B n
           \<and> (\<forall>y. inside B y \<longrightarrow> sqdist (dim B) x n \<le> sqdist (dim B) x y)
           \<and> m \<le> sqdist (dim B) x n \<and> sqdist (dim B) x n \<le> M
           \<and> (\<forall>y. inside B y \<longrightarrow> m \<le> sqdist (dim B) x y \<and> sqdist (dim B) x y \<le> M)"
proof -
  let ?m = "\<Sum>d<dim B.
                  (((lo (bounds B ! d) - x ! d + \<bar>lo (bounds B ! d) - x ! d\<bar>)
                    + (x ! d - hi (bounds B ! d) + \<bar>x ! d - hi (bounds B ! d)\<bar>)) / 2)\<^sup>2"
  let ?M = "\<Sum>d<dim B. (max (x ! d - lo (bounds B ! d)) (hi (bounds B ! d) - x ! d))\<^sup>2"
  let ?n = "nearest B x"
  have n: "inside B ?n"
    using assms(2) by (rule nearest_inside)
  have eq: "sqdist (dim B) x ?n = ?m"
    using assms(2) by (rule sqdist_nearest)
  have lower: "?m \<le> sqdist (dim B) x y" if "inside B y" for y
    using that by (rule sqdist_lower)
  have upper: "sqdist (dim B) x y \<le> ?M" if "inside B y" for y
    using that by (rule sqdist_upper)
  have "MinDistance_point 2 B x = Inr ?m" "MaxDistance_point 2 B x = Inr ?M"
    using assms(3) by (rule MinDistance_point_Euclid, rule MaxDistance_point_Euclid)
  moreover have "\<forall>y. inside B y \<longrightarrow> sqdist (dim B) x ?n \<le> sqdist (dim B) x y"
    using lower eq by simp
  moreover have "?m \<le> sqdist (dim B) x ?n" "sqdist (dim B) x ?n \<le> ?M"
    using eq upper[OF n] by simp_all
  moreover have "\<forall>y. inside B y \<longrightarrow> ?m \<le> sqdist (dim B) x y \<and> sqdist (dim B) x y \<le> ?M"
    using lower upper by simp
  ultimately show ?thesis
    using n by blast
qed

theorem Euclidean_distance_bounds_witness:
  "valid example_box \<and> well_formed example_box
   \<and> MinDistance_point 2 example_box [15, 5] = Inr 25
   \<and> MaxDistance_point 2 example_box [15, 5] = Inr 250
   \<and> 25 \<le> sqdist 2 [15, 5] [10, 5] \<and> sqdist 2 [15, 5] [10, 5] \<le> 250"
proof -
  have v: "valid example_box" and d: "dim example_box = 2"
    by (simp_all add: valid_def example_box_def)
  have p: "MinDistance_point 2 example_box [15, 5] = Inr 25"
    "MaxDistance_point 2 example_box [15, 5] = Inr 250"
    by (simp add: MinDistance_point_closed d numeral_2_eq_2, simp add: example_box_def,
        simp add: MaxDistance_point_closed d numeral_2_eq_2, simp add: example_box_def)
  have i: "inside example_box [10, 5]"
    by (simp add: inside_def example_box_def less_2_cases_iff)
  obtain m M where "MinDistance_point 2 example_box [15, 5] = Inr m"
    "MaxDistance_point 2 example_box [15, 5] = Inr M"
    "\<forall>y. inside example_box y \<longrightarrow>
       m \<le> sqdist (dim example_box) [15, 5] y \<and> sqdist (dim example_box) [15, 5] y \<le> M"
    using Euclidean_distance_bounds[OF v well_formed_example_box, of "[15, 5]"] d by auto
  then have "25 \<le> sqdist 2 [15, 5] [10, 5] \<and> sqdist 2 [15, 5] [10, 5] \<le> 250"
    using p i d by auto
  then show ?thesis
    using v p well_formed_example_box by simp
qed

subsection \<open>Union is monotonic\<close>

text \<open>
  Claim C6. After \<open>B |= x\<close>, for a point \<open>x\<close> of length \<open>dim\<close> or a bound \<open>x\<close> of equal
  \<open>dim\<close>, the call succeeds, \<open>dim\<close> is unchanged, every axis interval of the result is
  a superset of its value before the operation (every value it contained is still
  contained), and the absorbed coordinate, or every value of the absorbed axis
  interval, is contained in the resulting axis interval.
\<close>

theorem union_monotonic:
  assumes "valid B"
  shows "(length x = dim B \<longrightarrow>
            (\<exists>B'. union_point B x = Inr B' \<and> dim B' = dim B \<and> valid B'
                 \<and> (\<forall>d<dim B.
                       (\<forall>t. Range_Contains (bounds B ! d) t \<longrightarrow> Range_Contains (bounds B' ! d) t)
                     \<and> Range_Contains (bounds B' ! d) (x ! d))))
       \<and> (valid other \<and> dim other = dim B \<longrightarrow>
            (\<exists>B'. union_bound B other = Inr B' \<and> dim B' = dim B \<and> valid B'
                 \<and> (\<forall>d<dim B.
                       (\<forall>t. Range_Contains (bounds B ! d) t \<longrightarrow> Range_Contains (bounds B' ! d) t)
                     \<and> (\<forall>t. Range_Contains (bounds other ! d) t
                              \<longrightarrow> Range_Contains (bounds B' ! d) t))))"
proof (intro conjI impI)
  assume "length x = dim B"
  then obtain B' where B': "union_point B x = Inr B'" "dim B' = dim B" "valid B'"
    "\<forall>d<dim B. bounds B' ! d = Range_union_scalar (bounds B ! d) (x ! d)"
    using union_point_result[OF assms] by blast
  then have "\<forall>d<dim B.
                       (\<forall>t. Range_Contains (bounds B ! d) t \<longrightarrow> Range_Contains (bounds B' ! d) t)
                     \<and> Range_Contains (bounds B' ! d) (x ! d)"
    by (simp add: Range_union_scalar_superset Range_union_scalar_absorbs)
  with B'(1-3) show "\<exists>B'. union_point B x = Inr B' \<and> dim B' = dim B \<and> valid B'
                 \<and> (\<forall>d<dim B.
                       (\<forall>t. Range_Contains (bounds B ! d) t \<longrightarrow> Range_Contains (bounds B' ! d) t)
                     \<and> Range_Contains (bounds B' ! d) (x ! d))"
    by blast
next
  assume "valid other \<and> dim other = dim B"
  then have "dim other = dim B" ..
  then obtain B' where B': "union_bound B other = Inr B'" "dim B' = dim B" "valid B'"
    "\<forall>d<dim B. bounds B' ! d = Range_union (bounds B ! d) (bounds other ! d)"
    using union_bound_result[OF assms] by blast
  then have "\<forall>d<dim B.
                       (\<forall>t. Range_Contains (bounds B ! d) t \<longrightarrow> Range_Contains (bounds B' ! d) t)
                     \<and> (\<forall>t. Range_Contains (bounds other ! d) t
                              \<longrightarrow> Range_Contains (bounds B' ! d) t)"
    by (simp add: Range_union_superset Range_union_absorbs)
  with B'(1-3) show "\<exists>B'. union_bound B other = Inr B' \<and> dim B' = dim B \<and> valid B'
                 \<and> (\<forall>d<dim B.
                       (\<forall>t. Range_Contains (bounds B ! d) t \<longrightarrow> Range_Contains (bounds B' ! d) t)
                     \<and> (\<forall>t. Range_Contains (bounds other ! d) t
                              \<longrightarrow> Range_Contains (bounds B' ! d) t))"
    by blast
qed

theorem union_monotonic_witness:
  "valid example_box \<and> valid example_other
   \<and> union_point example_box [15, 5]
        = Inr \<lparr>dim = 2, bounds = [\<lparr>lo = 0, hi = 15\<rparr>, \<lparr>lo = 0, hi = 10\<rparr>]\<rparr>
   \<and> Range_Contains \<lparr>lo = 0, hi = 15\<rparr> 10 \<and> Range_Contains \<lparr>lo = 0, hi = 15\<rparr> 15
   \<and> union_bound example_box example_other
        = Inr \<lparr>dim = 2, bounds = [\<lparr>lo = 0, hi = 30\<rparr>, \<lparr>lo = 0, hi = 10\<rparr>]\<rparr>
   \<and> Range_Contains \<lparr>lo = 0, hi = 30\<rparr> 10 \<and> Range_Contains \<lparr>lo = 0, hi = 30\<rparr> 20"
proof -
  have v: "valid example_box" "valid example_other"
    and d: "dim example_box = 2" "dim example_other = 2"
    by (simp_all add: valid_def example_box_def example_other_def)
  have b: "bounds example_box ! 0 = \<lparr>lo = 0, hi = 10\<rparr>"
    "bounds example_other ! 0 = \<lparr>lo = 20, hi = 30\<rparr>"
    by (simp_all add: example_box_def example_other_def)
  have c: "Range_Contains \<lparr>lo = 0, hi = 10\<rparr> 10" "Range_Contains \<lparr>lo = 20, hi = 30\<rparr> 20"
    by (simp_all add: Range_Contains_def)
  note m = union_monotonic[OF v(1), of "[15, 5]" example_other]
  have "Range_Contains \<lparr>lo = 0, hi = 15\<rparr> 10 \<and> Range_Contains \<lparr>lo = 0, hi = 15\<rparr> 15"
    using m[THEN conjunct1] d b c union_point_example by fastforce
  moreover have "Range_Contains \<lparr>lo = 0, hi = 30\<rparr> 10 \<and> Range_Contains \<lparr>lo = 0, hi = 30\<rparr> 20"
    using m[THEN conjunct2] v d b c union_bound_example by fastforce
  ultimately show ?thesis
    using v union_point_example union_bound_example by simp
qed

subsection \<open>The traits of the binary space tree\<close>

text \<open>
  Claim C8. The specialisation of \<open>TreeTraits\<close> for \<open>BinarySpaceTree\<close> has exactly
  these five static values: \<open>HasOverlappingChildren = false\<close>,
  \<open>FirstPointIsCentroid = false\<close>, \<open>HasSelfChildren = false\<close>,
  \<open>RearrangesDataset = true\<close> and \<open>BinaryTree = true\<close>.
\<close>

theorem BinarySpaceTree_traits:
  "HasOverlappingChildren TreeTraits_BinarySpaceTree = False
   \<and> FirstPointIsCentroid TreeTraits_BinarySpaceTree = False
   \<and> HasSelfChildren TreeTraits_BinarySpaceTree = False
   \<and> RearrangesDataset TreeTraits_BinarySpaceTree = True
   \<and> BinaryTree TreeTraits_BinarySpaceTree = True"
  by (simp add: TreeTraits_BinarySpaceTree_def)

end
